theory Spec2Isabelle
  imports Main
begin

section \<open>Values, rows and errors\<close>

text \<open>
  A runtime scalar of the engine. JavaScript numbers are modelled by the integers
  (every number the theorems of this development touch is an integer); \<open>VUndefined\<close>
  is what reading a key that a row does not have gives.
\<close>

datatype val = VNumber int | VString string | VBoolean bool | VNull | VUndefined

text \<open>
  A row is a JavaScript object used as a dictionary, one entry per key, in the order
  in which the object lists its keys: the keys that are array indices first, in
  ascending order, then the other keys in insertion order.
\<close>

type_synonym row = "(string \<times> val) list"

text \<open>The number that a text of decimal digits stands for.\<close>

fun parse_nat :: "nat \<Rightarrow> string \<Rightarrow> nat option" where
  "parse_nat acc [] = Some acc"
| "parse_nat acc (c # cs) =
     (if 48 \<le> (of_char c :: nat) \<and> (of_char c :: nat) \<le> 57
      then parse_nat (10 * acc + ((of_char c :: nat) - 48)) cs else None)"

text \<open>
  An array index is the canonical decimal text of an integer from 0 to 4294967294
  (two less than the 32nd power of 2): no sign, no leading zero.
\<close>

definition arrayIndex :: "string \<Rightarrow> nat option" where
  "arrayIndex k =
     (if k = [] \<or> (hd k = CHR ''0'' \<and> tl k \<noteq> []) then None
      else (case parse_nat 0 k of
              None \<Rightarrow> None
            | Some n \<Rightarrow> if n < 4294967295 then Some n else None))"

text \<open>\<open>keyBefore k k'\<close>: an object that gets the new key \<open>k\<close> lists it before its key \<open>k'\<close>.\<close>

definition keyBefore :: "string \<Rightarrow> string \<Rightarrow> bool" where
  "keyBefore k k' \<longleftrightarrow>
     (case arrayIndex k of
        None \<Rightarrow> False
      | Some n \<Rightarrow> (case arrayIndex k' of None \<Rightarrow> True | Some m \<Rightarrow> n < m))"

text \<open>\<open>obj[key]\<close>: the value under a key, \<open>undefined\<close> when the object has no such key.\<close>

definition obj_get :: "row \<Rightarrow> string \<Rightarrow> val" where
  "obj_get r k = (case map_of r k of None \<Rightarrow> VUndefined | Some v \<Rightarrow> v)"

text \<open>
  \<open>{ ...res, [key]: value }\<close>: an existing key keeps its position and takes the new
  value; a new key goes to its place among the array indices when it is one, and
  after all the keys when it is not.
\<close>

fun obj_set :: "row \<Rightarrow> string \<Rightarrow> val \<Rightarrow> row" where
  "obj_set [] k v = [(k, v)]"
| "obj_set ((k', v') # r) k v =
     (if k' = k then (k, v) # r
      else if keyBefore k k' then (k, v) # (k', v') # r
      else (k', v') # obj_set r k v)"

text \<open>\<open>{ ...a, ...b }\<close>: the entries of \<open>b\<close> are written into \<open>a\<close> one after the other.\<close>

definition obj_spread :: "row \<Rightarrow> row \<Rightarrow> row" where
  "obj_spread a b = fold (\<lambda>(k, v) res. obj_set res k v) b a"

text \<open>\<open>Object.keys(obj)\<close>.\<close>

definition obj_keys :: "row \<Rightarrow> string list" where
  "obj_keys r = map fst r"

text \<open>
  Modelled from the spec: \<open>mapKeys\<close> of \<open>src/utils\<close>, which is not among the source
  files. The FROM stage uses it to "re-key every row so each column is
  \<open>alias-or-table::col\<close>": every key is replaced by its image, the values stay.
\<close>

definition mapKeys :: "row \<Rightarrow> (string \<Rightarrow> string) \<Rightarrow> row" where
  "mapKeys r f = fold (\<lambda>(k, v) res. obj_set res (f k) v) r []"

text \<open>JavaScript truthiness of a value, as \<open>if (v)\<close> and \<open>Array.filter\<close> test it.\<close>

fun truthy :: "val \<Rightarrow> bool" where
  "truthy (VNumber n) = (n \<noteq> 0)"
| "truthy (VString s) = (s \<noteq> [])"
| "truthy (VBoolean b) = b"
| "truthy VNull = False"
| "truthy VUndefined = False"

text \<open>Truthiness of a \<open>string | null\<close> field: null and the empty string are falsy.\<close>

fun truthy_str :: "string option \<Rightarrow> bool" where
  "truthy_str None = False"
| "truthy_str (Some s) = (s \<noteq> [])"

text \<open>\<open>a || b\<close> on a \<open>string | null\<close> and a string.\<close>

definition str_or :: "string option \<Rightarrow> string \<Rightarrow> string" where
  "str_or a b = (case a of None \<Rightarrow> b | Some s \<Rightarrow> if s = [] then b else s)"

text \<open>Decimal rendering of a number inside a template literal.\<close>

fun show_nat :: "nat \<Rightarrow> string" where
  "show_nat n =
     (if n < 10 then [''0123456789'' ! n]
      else show_nat (n div 10) @ [''0123456789'' ! (n mod 10)])"

declare show_nat.simps [simp del]

definition show_int :: "int \<Rightarrow> string" where
  "show_int i = (if i < 0 then ''-'' @ show_nat (nat (- i)) else show_nat (nat i))"

text \<open>
  The text of a value inside \<open>Array.prototype.join\<close>: \<open>null\<close> and \<open>undefined\<close> give the
  empty string.
\<close>

fun join_text :: "val \<Rightarrow> string" where
  "join_text (VNumber n) = show_int n"
| "join_text (VString s) = s"
| "join_text (VBoolean b) = (if b then ''true'' else ''false'')"
| "join_text VNull = []"
| "join_text VUndefined = []"

fun js_join :: "string \<Rightarrow> val list \<Rightarrow> string" where
  "js_join sep [] = []"
| "js_join sep [v] = join_text v"
| "js_join sep (v # w # vs) = join_text v @ sep @ js_join sep (w # vs)"

text \<open>
  The exceptions of the two processors. \<open>ServerError code message\<close> is the error of
  the storage layer that carries a machine code; \<open>JsError\<close> is any other exception
  of the runtime (\<open>Error\<close>, \<open>RangeError\<close>).
\<close>

datatype error =
    EvaluatorException string
  | ProcessorException string
  | SubQueryException string
  | ProcessorError string
  | ServerError string string
  | JsError string

section \<open>Expressions and queries\<close>

datatype order = ASC | DESC

text \<open>
  What reading a property that holds an object or \<open>null\<close> gives: \<open>undefined\<close> when the
  object was built without the property.
\<close>

datatype 'a property = Undefined | Null | Defined 'a

datatype expression =
    NumberE int
  | StringE string
  | BooleanE bool
  | NullE
  | DefaultE
  | ColumnRef "string option" string
  | Star "string option"
  | ArrayE "expression list"
  | BinaryExpression string expression expression
  | FunctionE string "expression list" bool
  | CaseE "(expression \<times> expression) list" "expression option"
  | SelectE select_query
and select_column =
    SelectColumn (sc_expr: expression) (sc_text: string) (sc_alias: "string option")
and from_src =
    FromTable (f_database: "string option") (f_table: string) (f_alias: "string option")
      (f_join: "string option") (f_on: "expression option")
  | FromSelect (f_query: select_query) (f_alias: "string option")
      (f_join: "string option") (f_on: "expression option")
and select_query =
    SelectQuery
      (from_list: "from_src list")
      (select_columns: "select_column list")
      (where_expr: "expression option")
      (groupBy: "expression list")
      (having: "expression property")
      (orderBy: "(expression \<times> order) list")
      (limit: int)
      (offset: int)
      (is_distinct: bool)

text \<open>The \<open>type\<close> tag of an expression object.\<close>

fun expr_type :: "expression \<Rightarrow> string" where
  "expr_type (NumberE n) = ''number''"
| "expr_type (StringE s) = ''string''"
| "expr_type (BooleanE b) = ''boolean''"
| "expr_type NullE = ''null''"
| "expr_type DefaultE = ''default''"
| "expr_type (ColumnRef t c) = ''column_ref''"
| "expr_type (Star t) = ''star''"
| "expr_type (ArrayE vs) = ''array''"
| "expr_type (BinaryExpression ope l r) = ''binary_expression''"
| "expr_type (FunctionE n args d) = ''function''"
| "expr_type (CaseE ws e) = ''case''"
| "expr_type (SelectE q) = ''select''"

text \<open>
  A SELECT column is an expression object with two more properties, \<open>column\<close> and
  \<open>alias\<close>. On a column reference \<open>column\<close> is the referenced column itself; on the
  other forms it is the column text the parser attached.
\<close>

definition sc_type :: "select_column \<Rightarrow> string" where
  "sc_type c = expr_type (sc_expr c)"

fun sc_column :: "select_column \<Rightarrow> string" where
  "sc_column (SelectColumn (ColumnRef t c) txt a) = c"
| "sc_column (SelectColumn e txt a) = txt"

text \<open>The \<open>name\<close> property of a SELECT column: only function objects have one.\<close>

fun sc_name :: "select_column \<Rightarrow> string option" where
  "sc_name (SelectColumn (FunctionE n args d) txt a) = Some n"
| "sc_name (SelectColumn e txt a) = None"

section \<open>Storage and evaluator interfaces\<close>

text \<open>
  Modelled from the spec: the \<open>Column\<close> classes of \<open>src/server\<close> (only
  \<open>DatetimeColumn\<close>, a constructor, is among the source files). A column has a name, a
  nullable flag, an optional default-value expression and a \<open>cast\<close> operation that
  enforces its type and range; \<open>integerColumn\<close> says that the object is an
  \<open>IntegerColumn\<close>, which alone has the auto-increment flag and its counter.
  \<open>autoIncrementCursor\<close> is the last value the counter handed out, 0 on a new table.
\<close>

record column =
  col_name :: string
  nullable :: bool
  defaultValueExpression :: "expression option"
  integerColumn :: bool
  autoIncrement :: bool
  autoIncrementCursor :: int
  cast :: "val \<Rightarrow> error + val"

text \<open>
  Modelled from the spec: \<open>Table\<close>, "an ordered collection of rows keyed by insertion
  order" with \<open>getColumns()\<close>, \<open>getRows()\<close> and \<open>insertRow(row)\<close>.
\<close>

record table =
  tcolumns :: "column list"
  trows :: "row list"

text \<open>Modelled from the spec: \<open>insertRow(row)\<close> puts the row after the rows of the table.\<close>

definition insertRow :: "table \<Rightarrow> row \<Rightarrow> table" where
  "insertRow t r = t\<lparr>trows := trows t @ [r]\<rparr>"

text \<open>
  Modelled from the spec: \<open>getNextAutoIncrementValue()\<close> "returns and advances" the
  counter of the column at position \<open>j\<close>; the first value on a new table is 1.
\<close>

definition getNextAutoIncrementValue :: "table \<Rightarrow> nat \<Rightarrow> int \<times> table" where
  "getNextAutoIncrementValue t j =
     (let c = tcolumns t ! j; n = autoIncrementCursor c + 1
      in (n, t\<lparr>tcolumns := (tcolumns t)[j := c\<lparr>autoIncrementCursor := n\<rparr>]\<rparr>))"

text \<open>
  Modelled from the spec: \<open>Server\<close>. \<open>lookupTable srv db name\<close> is
  \<open>srv.getDatabase(db).getTable(name)\<close>, with whatever exception the two lookups raise.
\<close>

record server =
  currentDatabase :: string
  lookupTable :: "string option \<Rightarrow> string \<Rightarrow> error + table"

text \<open>
  The \<open>Evaluator\<close> of \<open>src/processor\<close> is not among the source files; the SELECT
  pipeline is defined over any evaluator. \<open>evaluateExpression e row group\<close> gets the row
  (\<open>None\<close> when the caller passes \<open>undefined\<close>) and the group when the caller passes one;
  \<open>evaluateUndefined row group\<close> is the same method called with \<open>undefined\<close> in the place
  of the expression. The class is built from the server and the context row of the
  processor.
\<close>

record evaluator =
  evaluateExpression :: "expression \<Rightarrow> row option \<Rightarrow> row list option \<Rightarrow> error + val"
  evaluateUndefined :: "row option \<Rightarrow> row list option \<Rightarrow> error + val"
  evaluateStar :: "expression \<Rightarrow> row option \<Rightarrow> error + row"

type_synonym evaluator_class = "server \<Rightarrow> row \<Rightarrow> evaluator"

text \<open>
  \<open>hashCode\<close> and \<open>sortBy\<close> of \<open>src/utils\<close> are not among the source files either.
  \<open>sortRows keys rs\<close> stands for \<open>rs.sort(sortBy(keys))\<close>: the sorted array, or the
  exception a key mapper raised.
\<close>

type_synonym sort_key = "(row \<Rightarrow> error + val) \<times> int"

record utils =
  hashCode :: "string \<Rightarrow> int"
  sortRows :: "sort_key list \<Rightarrow> row list \<Rightarrow> error + row list"

section \<open>The SELECT processor\<close>

text \<open>
  The processor keeps references to arrays: \<open>rows\<close> is the address of the array
  \<open>this.rows\<close> points to, \<open>groupedRows\<close> maps a hash to the address of its group, in
  insertion order, and \<open>heap\<close> holds the arrays. An array literal, \<open>filter\<close>, \<open>map\<close>
  and \<open>reduce\<close> from \<open>[]\<close> make a new array; \<open>sort\<close>, \<open>push\<close> and an assignment to
  \<open>length\<close> change the array in place.
\<close>

record processor =
  heap :: "nat \<Rightarrow> row list"
  fresh :: nat
  rows :: nat
  groupedRows :: "(int \<times> nat) list"
  columns :: "string list"

definition init_processor :: processor where
  "init_processor = \<lparr>heap = (\<lambda>a. []), fresh = 1, rows = 0, groupedRows = [], columns = []\<rparr>"

definition new_array :: "row list \<Rightarrow> processor \<Rightarrow> nat \<times> processor" where
  "new_array xs s = (fresh s, s\<lparr>heap := (heap s)(fresh s := xs), fresh := Suc (fresh s)\<rparr>)"

definition this_rows :: "processor \<Rightarrow> row list" where
  "this_rows s = heap s (rows s)"

text \<open>\<open>this.rows = xs\<close> for a newly made array \<open>xs\<close>.\<close>

definition assign_rows :: "row list \<Rightarrow> processor \<Rightarrow> processor" where
  "assign_rows xs s = (case new_array xs s of (a, s') \<Rightarrow> s'\<lparr>rows := a\<rparr>)"

text \<open>A change of the array \<open>this.rows\<close> points to, in place.\<close>

definition update_rows :: "row list \<Rightarrow> processor \<Rightarrow> processor" where
  "update_rows xs s = s\<lparr>heap := (heap s)(rows s := xs)\<rparr>"

definition quoted :: "string \<Rightarrow> string" where
  "quoted s = CHR 0x27 # s @ [CHR 0x27]"

text \<open>
  The catch block of every stage: an \<open>EvaluatorException\<close> becomes a
  \<open>ProcessorException\<close> that names the clause, any other exception is thrown again.
\<close>

fun in_clause :: "string \<Rightarrow> error \<Rightarrow> error" where
  "in_clause clause (EvaluatorException m) = ProcessorException (m @ '' in '' @ quoted clause)"
| "in_clause clause err = err"

subsection \<open>FROM\<close>

text \<open>The loop of \<open>joinRows\<close> over the right-side rows, for one left-side row.\<close>

fun joinGroup :: "evaluator \<Rightarrow> expression option \<Rightarrow> row \<Rightarrow> row list \<Rightarrow> error + row list" where
  "joinGroup E cond rowA [] = Inr []"
| "joinGroup E cond rowA (rowB # rowsB) =
     (case cond of
        None \<Rightarrow>
          (case joinGroup E cond rowA rowsB of
             Inl err \<Rightarrow> Inl err
           | Inr g \<Rightarrow> Inr (obj_spread rowA rowB # g))
      | Some ex \<Rightarrow>
          (case evaluateExpression E ex (Some (obj_spread rowA rowB)) None of
             Inl err \<Rightarrow> Inl err
           | Inr v \<Rightarrow>
               (case joinGroup E cond rowA rowsB of
                  Inl err \<Rightarrow> Inl err
                | Inr g \<Rightarrow> Inr (if truthy v then obj_spread rowA rowB # g else g))))"

text \<open>The body of the reducer of \<open>joinRows\<close>: the joined rows of one left-side row.\<close>

definition joinRow ::
  "evaluator \<Rightarrow> expression option \<Rightarrow> row option \<Rightarrow> row \<Rightarrow> row list \<Rightarrow> error + row list" where
  "joinRow E cond placeholderIfNoMatch rowA rowsB =
     (case joinGroup E cond rowA rowsB of
        Inl err \<Rightarrow> Inl (in_clause ''on clause'' err)
      | Inr g \<Rightarrow>
          (case placeholderIfNoMatch of
             None \<Rightarrow> Inr g
           | Some ph \<Rightarrow> Inr (if g = [] then [obj_spread rowA ph] else g)))"

fun joinRows ::
  "evaluator \<Rightarrow> row list \<Rightarrow> row list \<Rightarrow> expression option \<Rightarrow> row option \<Rightarrow> error + row list" where
  "joinRows E [] rowsB cond ph = Inr []"
| "joinRows E (rowA # rowsA) rowsB cond ph =
     (case joinRow E cond ph rowA rowsB of
        Inl err \<Rightarrow> Inl err
      | Inr g \<Rightarrow>
          (case joinRows E rowsA rowsB cond ph of
             Inl err \<Rightarrow> Inl err
           | Inr res \<Rightarrow> Inr (g @ res)))"

text \<open>\<open>columns.reduce((res, key) => ({ ...res, [key]: null }), {})\<close>.\<close>

definition placeholder :: "string list \<Rightarrow> row" where
  "placeholder cols = fold (\<lambda>key res. obj_set res key VNull) cols []"

text \<open>
  The second half of the loop body of \<open>applyFrom\<close>: the scope list grows and the rows
  of source \<open>i\<close> are combined with the rows so far.
\<close>

definition combineFrom ::
  "evaluator \<Rightarrow> nat \<Rightarrow> string option \<Rightarrow> expression option \<Rightarrow> row list \<Rightarrow> string list \<Rightarrow>
   processor \<Rightarrow> error + processor" where
  "combineFrom E i join cond rs cols s0 =
     (let s = s0\<lparr>columns := columns s0 @ cols\<rparr>
      in if i = 0 then Inr (assign_rows rs s)
         else if join = None then
           (case joinRows E (this_rows s) rs None None of
              Inl err \<Rightarrow> Inl err | Inr res \<Rightarrow> Inr (assign_rows res s))
         else if join = Some ''CROSS JOIN'' \<or> join = Some ''INNER JOIN'' then
           (case joinRows E (this_rows s) rs cond None of
              Inl err \<Rightarrow> Inl err | Inr res \<Rightarrow> Inr (assign_rows res s))
         else if join = Some ''LEFT JOIN'' then
           (case joinRows E (this_rows s) rs cond (Some (placeholder cols)) of
              Inl err \<Rightarrow> Inl err | Inr res \<Rightarrow> Inr (assign_rows res s))
         else Inl (ProcessorException
                (''Unknown '' @ [CHR 0x22] @ (case join of None \<Rightarrow> [] | Some j \<Rightarrow> j) @
                 [CHR 0x22] @ '' join type'')))"

subsection \<open>WHERE\<close>

text \<open>\<open>Array.filter\<close> with a predicate that may throw.\<close>

fun filterRows :: "(row \<Rightarrow> error + val) \<Rightarrow> row list \<Rightarrow> error + row list" where
  "filterRows p [] = Inr []"
| "filterRows p (r # rs) =
     (case p r of
        Inl err \<Rightarrow> Inl err
      | Inr v \<Rightarrow>
          (case filterRows p rs of
             Inl err \<Rightarrow> Inl err
           | Inr out \<Rightarrow> Inr (if truthy v then r # out else out)))"

definition applyWhere :: "evaluator \<Rightarrow> select_query \<Rightarrow> processor \<Rightarrow> error + processor" where
  "applyWhere E q s =
     (case where_expr q of
        None \<Rightarrow> Inr s
      | Some w \<Rightarrow>
          (case filterRows (\<lambda>r. evaluateExpression E w (Some r) None) (this_rows s) of
             Inl err \<Rightarrow> Inl (in_clause ''where clause'' err)
           | Inr out \<Rightarrow> Inr (assign_rows out s)))"

subsection \<open>GROUP BY\<close>

text \<open>A list of evaluations, left to right, up to the first exception.\<close>

fun evaluateAll :: "('a \<Rightarrow> error + val) \<Rightarrow> 'a list \<Rightarrow> error + val list" where
  "evaluateAll f [] = Inr []"
| "evaluateAll f (x # xs) =
     (case f x of
        Inl err \<Rightarrow> Inl err
      | Inr v \<Rightarrow> (case evaluateAll f xs of Inl err \<Rightarrow> Inl err | Inr vs \<Rightarrow> Inr (v # vs)))"

text \<open>\<open>Map.set\<close>: a known key keeps its place in the iteration order.\<close>

fun map_set :: "('k \<times> 'v) list \<Rightarrow> 'k \<Rightarrow> 'v \<Rightarrow> ('k \<times> 'v) list" where
  "map_set [] k a = [(k, a)]"
| "map_set ((k', a') # m) k a =
     (if k' = k then (k, a) # m else (k', a') # map_set m k a)"

definition isAggregateColumn :: "select_column \<Rightarrow> bool" where
  "isAggregateColumn c \<longleftrightarrow>
     sc_type c = ''function'' \<and>
     (case sc_name c of
        None \<Rightarrow> False
      | Some n \<Rightarrow> n \<in> set [''count'', ''sum'', ''min'', ''max'', ''avg''])"

definition hasAggregateFunction :: "select_column list \<Rightarrow> bool" where
  "hasAggregateFunction cols = list_ex isAggregateColumn cols"

definition isColumnRef :: "select_column \<Rightarrow> bool" where
  "isColumnRef c \<longleftrightarrow> sc_type c = ''column_ref''"

text \<open>
  \<open>columns.indexOf(columnRef)\<close> for the object \<open>columns.find\<close> returned: the position of
  the first column reference.
\<close>

definition columnRefIndex :: "select_column list \<Rightarrow> nat" where
  "columnRefIndex cols = length (takeWhile (\<lambda>c. \<not> isColumnRef c) cols)"

fun columnName :: "select_column \<Rightarrow> string" where
  "columnName (SelectColumn (ColumnRef t c) txt a) =
     (if truthy_str t then the t @ ''.'' @ c else c)"
| "columnName (SelectColumn e txt a) = txt"

definition nonaggregatedMessage :: "nat \<Rightarrow> string \<Rightarrow> string" where
  "nonaggregatedMessage n x =
     ''In aggregated query without GROUP BY, '' @
     ''expression #'' @ show_nat n @ '' of SELECT list contains nonaggregated column '' @
     quoted x"

text \<open>The loop of \<open>applyGroupBy\<close> over the rows, for a non-empty GROUP BY list.\<close>

fun groupRows ::
  "evaluator \<Rightarrow> utils \<Rightarrow> expression list \<Rightarrow> row list \<Rightarrow> processor \<Rightarrow> error + processor" where
  "groupRows E U gb [] s = Inr s"
| "groupRows E U gb (r # rs) s =
     (case evaluateAll (\<lambda>c. evaluateExpression E c (Some r) None) gb of
        Inl err \<Rightarrow> Inl err
      | Inr vs \<Rightarrow>
          (let h = hashCode U (js_join ''::'' vs);
               old = (case map_of (groupedRows s) h of None \<Rightarrow> [] | Some a \<Rightarrow> heap s a)
           in case new_array (old @ [r]) s of
                (a', s') \<Rightarrow> groupRows E U gb rs (s'\<lparr>groupedRows := map_set (groupedRows s') h a'\<rparr>)))"

definition applyGroupBy ::
  "evaluator \<Rightarrow> utils \<Rightarrow> select_query \<Rightarrow> processor \<Rightarrow> error + processor" where
  "applyGroupBy E U q s =
     (if groupBy q = [] then
        (if \<not> hasAggregateFunction (select_columns q) then Inr s
         else
           (case find isColumnRef (select_columns q) of
              Some columnRef \<Rightarrow>
                Inl (ProcessorException
                  (nonaggregatedMessage (columnRefIndex (select_columns q) + 1)
                     (columnName columnRef)))
            | None \<Rightarrow> Inr (s\<lparr>groupedRows := map_set (groupedRows s) 1 (rows s)\<rparr>)))
      else
        (case groupRows E U (groupBy q) (this_rows s) s of
           Inl err \<Rightarrow> Inl (in_clause ''group statement'' err)
         | Inr s' \<Rightarrow> Inr s'))"

subsection \<open>ORDER BY\<close>

definition sortKeys :: "evaluator \<Rightarrow> (expression \<times> order) list \<Rightarrow> sort_key list" where
  "sortKeys E obs =
     map (\<lambda>(ob, ord). (\<lambda>r. evaluateExpression E ob (Some r) None,
                        if ord = ASC then 1 else - 1)) obs"

definition applyOrderBy ::
  "evaluator \<Rightarrow> utils \<Rightarrow> select_query \<Rightarrow> processor \<Rightarrow> error + processor" where
  "applyOrderBy E U q s =
     (if orderBy q = [] then Inr s
      else
        (case sortRows U (sortKeys E (orderBy q)) (this_rows s) of
           Inl err \<Rightarrow> Inl (in_clause ''order clause'' err)
         | Inr rs \<Rightarrow> Inr (update_rows rs s)))"

subsection \<open>SELECT and HAVING\<close>

definition needsInputRow :: "select_column list \<Rightarrow> bool" where
  "needsInputRow cols \<longleftrightarrow>
     list_ex (\<lambda>c. sc_type c = ''function'') cols \<or>
     list_ex (\<lambda>c. sc_type c = ''binary_expression'') cols \<or>
     list_ex (\<lambda>c. sc_type c \<in> set [''number'', ''string'', ''boolean'', ''null'']) cols \<or>
     list_ex (\<lambda>c. sc_type c = ''case'') cols \<or>
     list_ex (\<lambda>c. sc_type c = ''select'') cols"

text \<open>The first statement of \<open>applySelectAndHaving\<close>: the injected input row.\<close>

definition injectRow :: "select_query \<Rightarrow> processor \<Rightarrow> processor" where
  "injectRow q s =
     (if this_rows s = [] \<and> needsInputRow (select_columns q) then assign_rows [[]] s else s)"

definition aliasKeys :: "select_column list \<Rightarrow> string list" where
  "aliasKeys cols =
     map (\<lambda>c. ''::'' @ the (sc_alias c))
       (filter (\<lambda>c. sc_type c \<noteq> ''star'' \<and> truthy_str (sc_alias c)) cols)"

text \<open>
  The reducer of \<open>mapRow\<close> over the SELECT columns; \<open>res\<close> is the mapped row so far and
  \<open>rwa\<close> is \<open>rawRowWithAliases\<close>.
\<close>

fun mapColumns ::
  "evaluator \<Rightarrow> select_column list \<Rightarrow> row option \<Rightarrow> row list \<Rightarrow> row \<Rightarrow> row option \<Rightarrow>
   error + row \<times> row option" where
  "mapColumns E [] rawRow grp res rwa = Inr (res, rwa)"
| "mapColumns E (c # cs) rawRow grp res rwa =
     (if sc_type c = ''star'' then
        (case evaluateStar E (sc_expr c) rawRow of
           Inl err \<Rightarrow> Inl err
         | Inr m \<Rightarrow> mapColumns E cs rawRow grp (obj_spread res m) rwa)
      else
        (case evaluateExpression E (sc_expr c) rawRow (Some grp) of
           Inl err \<Rightarrow> Inl err
         | Inr v \<Rightarrow>
             mapColumns E cs rawRow grp
               (obj_set res (str_or (sc_alias c) (sc_column c)) v)
               (if truthy_str (sc_alias c)
                then Some (obj_set (case rwa of None \<Rightarrow> [] | Some r \<Rightarrow> r)
                             (''::'' @ the (sc_alias c)) v)
                else rwa)))"

definition mapRow ::
  "evaluator \<Rightarrow> select_query \<Rightarrow> row option \<Rightarrow> row list \<Rightarrow> error + row \<times> row option" where
  "mapRow E q rawRow grp =
     (case mapColumns E (select_columns q) rawRow grp [] rawRow of
        Inl err \<Rightarrow> Inl (in_clause ''field list'' err)
      | Inr p \<Rightarrow> Inr p)"

text \<open>
  \<open>checkIfKeep\<close>: only \<open>having === null\<close> keeps the row without a call of the evaluator;
  whatever else the property reads as, \<open>undefined\<close> too, goes to the evaluator.
\<close>

definition checkIfKeep ::
  "evaluator \<Rightarrow> select_query \<Rightarrow> row option \<Rightarrow> row list \<Rightarrow> error + bool" where
  "checkIfKeep E q r grp =
     (case having q of
        Null \<Rightarrow> Inr True
      | Undefined \<Rightarrow>
          (case evaluateUndefined E r (Some grp) of
             Inl err \<Rightarrow> Inl (in_clause ''having clause'' err)
           | Inr v \<Rightarrow> Inr (truthy v))
      | Defined h \<Rightarrow>
          (case evaluateExpression E h r (Some grp) of
             Inl err \<Rightarrow> Inl (in_clause ''having clause'' err)
           | Inr v \<Rightarrow> Inr (truthy v)))"

text \<open>The body of both loops: one input row and its group give at most one output row.\<close>

definition selectRow ::
  "evaluator \<Rightarrow> select_query \<Rightarrow> row option \<Rightarrow> row list \<Rightarrow> error + row list" where
  "selectRow E q rawRow grp =
     (case mapRow E q rawRow grp of
        Inl err \<Rightarrow> Inl err
      | Inr (mappedRow, rawRowWithAliases) \<Rightarrow>
          (case checkIfKeep E q rawRowWithAliases grp of
             Inl err \<Rightarrow> Inl err
           | Inr keep \<Rightarrow> Inr (if keep then [mappedRow] else [])))"

text \<open>The loop over the rows, when there are no groups.\<close>

fun selectRows :: "evaluator \<Rightarrow> select_query \<Rightarrow> row list \<Rightarrow> error + row list" where
  "selectRows E q [] = Inr []"
| "selectRows E q (rawRow # rs) =
     (case selectRow E q (Some rawRow) [] of
        Inl err \<Rightarrow> Inl err
      | Inr out \<Rightarrow>
          (case selectRows E q rs of Inl err \<Rightarrow> Inl err | Inr outs \<Rightarrow> Inr (out @ outs)))"

text \<open>\<open>const [firstRawRow] = group\<close>: \<open>undefined\<close> for an empty group.\<close>

definition firstRawRow :: "row list \<Rightarrow> row option" where
  "firstRawRow grp = (case grp of [] \<Rightarrow> None | r # rs \<Rightarrow> Some r)"

text \<open>The loop over the groups, in the iteration order of the map.\<close>

fun selectGroups :: "evaluator \<Rightarrow> select_query \<Rightarrow> row list list \<Rightarrow> error + row list" where
  "selectGroups E q [] = Inr []"
| "selectGroups E q (grp # gs) =
     (case selectRow E q (firstRawRow grp) grp of
        Inl err \<Rightarrow> Inl err
      | Inr out \<Rightarrow>
          (case selectGroups E q gs of Inl err \<Rightarrow> Inl err | Inr outs \<Rightarrow> Inr (out @ outs)))"

text \<open>The filter of DISTINCT; \<open>seen\<close> is the set \<open>index\<close>.\<close>

fun distinctRows :: "string list \<Rightarrow> string list \<Rightarrow> row list \<Rightarrow> row list" where
  "distinctRows keys seen [] = []"
| "distinctRows keys seen (r # rs) =
     (let v = js_join ''-'' (map (obj_get r) keys)
      in if v \<in> set seen then distinctRows keys seen rs
         else r # distinctRows keys (v # seen) rs)"

definition applyDistinct :: "select_query \<Rightarrow> processor \<Rightarrow> processor" where
  "applyDistinct q s =
     (if is_distinct q \<and> this_rows s \<noteq> []
      then assign_rows (distinctRows (obj_keys (hd (this_rows s))) [] (this_rows s)) s
      else s)"

definition applySelectAndHaving ::
  "evaluator \<Rightarrow> select_query \<Rightarrow> processor \<Rightarrow> error + processor" where
  "applySelectAndHaving E q s0 =
     (let s1 = injectRow q s0;
          s = s1\<lparr>columns := columns s1 @ aliasKeys (select_columns q)\<rparr>
      in case (if groupedRows s = []
               then selectRows E q (this_rows s)
               else selectGroups E q (map (\<lambda>(h, a). heap s a) (groupedRows s))) of
           Inl err \<Rightarrow> Inl err
         | Inr out \<Rightarrow> Inr (applyDistinct q (assign_rows out s)))"

subsection \<open>LIMIT\<close>

text \<open>\<open>rows.filter((_, i) => i >= offset)\<close>.\<close>

definition fromIndex :: "int \<Rightarrow> row list \<Rightarrow> row list" where
  "fromIndex off rs = map snd (filter (\<lambda>(i, r). off \<le> int i) (enumerate 0 rs))"

text \<open>
  An assignment to \<open>length\<close> shortens the array in place; a negative length is a
  \<open>RangeError\<close>.
\<close>

definition applyLimit :: "select_query \<Rightarrow> processor \<Rightarrow> error + processor" where
  "applyLimit q s0 =
     (let s = (if offset q \<noteq> 0 then assign_rows (fromIndex (offset q) (this_rows s0)) s0 else s0)
      in if limit q \<noteq> 0 \<and> limit q < int (length (this_rows s))
         then (if limit q < 0 then Inl (JsError ''Invalid array length'')
               else Inr (update_rows (take (nat (limit q)) (this_rows s)) s))
         else Inr s)"

subsection \<open>The pipeline\<close>

text \<open>The stages of \<open>process\<close> after \<open>applyFrom\<close>, and the returned array.\<close>

definition afterFrom ::
  "evaluator \<Rightarrow> utils \<Rightarrow> select_query \<Rightarrow> processor \<Rightarrow> error + row list" where
  "afterFrom E U q s0 =
     (case applyWhere E q s0 of
        Inl err \<Rightarrow> Inl err
      | Inr s1 \<Rightarrow>
     (case applyGroupBy E U q s1 of
        Inl err \<Rightarrow> Inl err
      | Inr s2 \<Rightarrow>
     (case applyOrderBy E U q s2 of
        Inl err \<Rightarrow> Inl err
      | Inr s3 \<Rightarrow>
     (case applySelectAndHaving E q s3 of
        Inl err \<Rightarrow> Inl err
      | Inr s4 \<Rightarrow>
     (case applyLimit q s4 of
        Inl err \<Rightarrow> Inl err
      | Inr s5 \<Rightarrow> Inr (this_rows s5))))))"

text \<open>
  \<open>process\<close> and the loop of \<open>applyFrom\<close> over the sources; a derived table runs a
  processor of its own, with the empty context.
\<close>

fun process ::
  "evaluator_class \<Rightarrow> utils \<Rightarrow> server \<Rightarrow> row \<Rightarrow> select_query \<Rightarrow> error + row list"
and applyFrom ::
  "evaluator_class \<Rightarrow> utils \<Rightarrow> server \<Rightarrow> row \<Rightarrow> from_src list \<Rightarrow> nat \<Rightarrow> processor \<Rightarrow>
   error + processor" where
  "process EC U srv ctx (SelectQuery fs cols w gb hv ob lim off dist) =
     (case applyFrom EC U srv ctx fs 0 init_processor of
        Inl err \<Rightarrow> Inl err
      | Inr s \<Rightarrow> afterFrom (EC srv ctx) U (SelectQuery fs cols w gb hv ob lim off dist) s)"
| "applyFrom EC U srv ctx [] i s = Inr s"
| "applyFrom EC U srv ctx (FromSelect sub alias join cond # fs) i s =
     (if \<not> truthy_str alias
      then Inl (SubQueryException ''Every derived table must have its own alias'')
      else
        (case process EC U srv [] sub of
           Inl err \<Rightarrow> Inl err
         | Inr out \<Rightarrow>
             (let rs = map (\<lambda>r. mapKeys r (\<lambda>key. the alias @ ''::'' @ key)) out;
                  cols = (if rs \<noteq> [] then obj_keys (hd rs) else [])
              in case combineFrom (EC srv ctx) i join cond rs cols s of
                   Inl err \<Rightarrow> Inl err
                 | Inr s' \<Rightarrow> applyFrom EC U srv ctx fs (Suc i) s')))"
| "applyFrom EC U srv ctx (FromTable db t alias join cond # fs) i s =
     (case lookupTable srv db t of
        Inl err \<Rightarrow> Inl err
      | Inr tab \<Rightarrow>
          (let keyMapper = (\<lambda>key. str_or alias t @ ''::'' @ key);
               rs = map (\<lambda>r. mapKeys r keyMapper) (trows tab);
               cols = map (\<lambda>c. keyMapper (col_name c)) (tcolumns tab)
           in case combineFrom (EC srv ctx) i join cond rs cols s of
                Inl err \<Rightarrow> Inl err
              | Inr s' \<Rightarrow> applyFrom EC U srv ctx fs (Suc i) s'))"

section \<open>Building a SELECT query from the parser's tree\<close>

text \<open>
  The tree of the SQL parser (an external library), as far as \<open>fromAst\<close> reads it.
\<close>

datatype ast_expr =
    AstColumnRef "string option" string
  | AstNumber int
  | AstString string
  | AstBool bool
  | AstNull
  | AstStar
  | AstExprList "ast_expr list"
  | AstBinaryExpr string ast_expr ast_expr
  | AstFunction string "ast_expr list"
  | AstAggrFunc string "ast_expr list"

fun ast_type :: "ast_expr \<Rightarrow> string" where
  "ast_type (AstColumnRef t c) = ''column_ref''"
| "ast_type (AstNumber n) = ''number''"
| "ast_type (AstString s) = ''string''"
| "ast_type (AstBool b) = ''bool''"
| "ast_type AstNull = ''null''"
| "ast_type AstStar = ''star''"
| "ast_type (AstExprList es) = ''expr_list''"
| "ast_type (AstBinaryExpr ope l r) = ''binary_expr''"
| "ast_type (AstFunction n args) = ''function''"
| "ast_type (AstAggrFunc n args) = ''aggr_func''"

fun ast_name :: "ast_expr \<Rightarrow> string" where
  "ast_name (AstFunction n args) = n"
| "ast_name (AstAggrFunc n args) = n"
| "ast_name e = []"

record ast_from =
  af_db :: "string option"
  af_table :: string
  af_as :: "string option"
  af_join :: "string option"
  af_on :: "ast_expr option"

text \<open>An entry of \<open>ast.columns\<close>: the string \<open>'*'\<close>, or an expression with its alias.\<close>

datatype ast_column = AstAll | AstColumn ast_expr "string option"

record ast_limit =
  seperator :: string
  limit_values :: "int list"

record ast_select =
  ast_from :: "ast_from list"
  ast_columns :: "ast_column list"
  ast_where :: "ast_expr option"
  ast_groupby :: "ast_expr list"
  ast_orderby :: "(ast_expr \<times> order) list"
  ast_limit :: "ast_limit option"

text \<open>
  Modelled from the spec: \<open>buildExpression\<close> of \<open>src/parser/expression\<close>, which is not
  among the source files. "Any column_ref arriving from the parser with a user alias
  has its table rewritten to the underlying base table name"; the other shapes are
  the ones the parser tests of the repository expect (\<open>binary_expression\<close> with
  \<open>operator\<close>, \<open>left\<close>, \<open>right\<close>; \<open>function\<close> with \<open>name\<close> and \<open>args\<close>; \<open>array\<close> for the
  list of \<open>IN\<close>; \<open>star\<close> with its table).
\<close>

definition baseTable :: "(string \<times> string) list \<Rightarrow> string option \<Rightarrow> string option" where
  "baseTable tableAliases t =
     (case t of
        None \<Rightarrow> None
      | Some a \<Rightarrow> (case map_of tableAliases a of None \<Rightarrow> Some a | Some b \<Rightarrow> Some b))"

text \<open>
  Modelled from the spec: \<open>buildExpression\<close>, on the shapes of the parser's tree listed
  above; the name of a function is the one the parser gives.
\<close>

fun buildExpression :: "ast_expr \<Rightarrow> (string \<times> string) list \<Rightarrow> expression" where
  "buildExpression (AstColumnRef t c) al =
     (if c = ''*'' then Star (baseTable al t) else ColumnRef (baseTable al t) c)"
| "buildExpression (AstNumber n) al = NumberE n"
| "buildExpression (AstString s) al = StringE s"
| "buildExpression (AstBool b) al = BooleanE b"
| "buildExpression AstNull al = NullE"
| "buildExpression AstStar al = Star None"
| "buildExpression (AstExprList es) al = ArrayE (map (\<lambda>e. buildExpression e al) es)"
| "buildExpression (AstBinaryExpr ope l r) al =
     BinaryExpression ope (buildExpression l al) (buildExpression r al)"
| "buildExpression (AstFunction n args) al =
     FunctionE n (map (\<lambda>e. buildExpression e al) args) False"
| "buildExpression (AstAggrFunc n args) al =
     FunctionE n (map (\<lambda>e. buildExpression e al) args) False"

text \<open>The alias map of \<open>fromAst\<close>: every source with a non-empty alias sets an entry.\<close>

definition tableAliasesOf :: "ast_from list \<Rightarrow> (string \<times> string) list" where
  "tableAliasesOf fs =
     fold (\<lambda>f m. if truthy_str (af_as f) then map_set m (the (af_as f)) (af_table f) else m) fs []"

text \<open>
  The source file is the revision of the class before aliases, derived tables,
  \<open>having\<close> and \<open>distinct\<close>: the objects it builds do not have these properties. A
  source without \<open>type\<close> and \<open>alias\<close> is read by the processor as a base table without
  alias.
\<close>

definition fromOfAst :: "(string \<times> string) list \<Rightarrow> ast_from \<Rightarrow> from_src" where
  "fromOfAst al f =
     FromTable (if truthy_str (af_db f) then af_db f else None) (af_table f) None
       (if truthy_str (af_join f) then af_join f else None)
       (case af_on f of None \<Rightarrow> None | Some e \<Rightarrow> Some (buildExpression e al))"

fun columnOfAst :: "(string \<times> string) list \<Rightarrow> ast_column \<Rightarrow> error + select_column" where
  "columnOfAst al AstAll = Inr (SelectColumn (buildExpression AstStar al) [] None)"
| "columnOfAst al (AstColumn e a) =
     (if ast_type e = ''column_ref'' \<and> (case e of AstColumnRef t c \<Rightarrow> c = ''*'' | _ \<Rightarrow> False)
      then Inr (SelectColumn (buildExpression e al) [] None)
      else if ast_type e = ''column_ref''
      then Inr (SelectColumn (buildExpression e al) [] a)
      else if ast_type e \<in> set [''binary_expr'', ''aggr_func'', ''function'']
      then Inr (SelectColumn (buildExpression e al)
                  (if ast_type e \<in> set [''aggr_func'', ''function'']
                   then ast_name e @ ''()'' else [])
                  a)
      else Inl (JsError ''Could not map columns''))"

fun columnsOfAst :: "(string \<times> string) list \<Rightarrow> ast_column list \<Rightarrow> error + select_column list" where
  "columnsOfAst al [] = Inr []"
| "columnsOfAst al (c # cs) =
     (case columnOfAst al c of
        Inl err \<Rightarrow> Inl err
      | Inr x \<Rightarrow> (case columnsOfAst al cs of Inl err \<Rightarrow> Inl err | Inr xs \<Rightarrow> Inr (x # xs)))"

text \<open>The pair \<open>(limit, offset)\<close> that \<open>fromAst\<close> reads off the LIMIT clause.\<close>

definition limitOfAst :: "ast_limit option \<Rightarrow> int \<times> int" where
  "limitOfAst l =
     (case l of
        None \<Rightarrow> (0, 0)
      | Some lim \<Rightarrow>
          (case limit_values lim of
             [a] \<Rightarrow> (a, 0)
           | [a, b] \<Rightarrow>
               (if seperator lim = '','' then (b, a)
                else if seperator lim = ''offset'' then (a, b)
                else (0, 0))
           | _ \<Rightarrow> (0, 0)))"

text \<open>
  \<open>fromAst\<close>. The constructor takes seven arguments: the query object has no \<open>having\<close>
  property, which reads as \<open>undefined\<close>, and no \<open>distinct\<close> property, which the processor
  reads as false.
\<close>

definition fromAst :: "ast_select \<Rightarrow> error + select_query" where
  "fromAst ast =
     (let tableAliases = tableAliasesOf (ast_from ast)
      in case columnsOfAst tableAliases (ast_columns ast) of
           Inl err \<Rightarrow> Inl err
         | Inr cols \<Rightarrow>
             Inr (SelectQuery
               (map (fromOfAst tableAliases) (ast_from ast))
               cols
               (case ast_where ast of None \<Rightarrow> None | Some e \<Rightarrow> Some (buildExpression e tableAliases))
               (map (\<lambda>g. buildExpression g tableAliases) (ast_groupby ast))
               Undefined
               (map (\<lambda>(e, ord). (buildExpression e tableAliases, ord)) (ast_orderby ast))
               (fst (limitOfAst (ast_limit ast)))
               (snd (limitOfAst (ast_limit ast)))
               False))"

section \<open>The INSERT processor\<close>

record insert_query =
  iq_database :: "string option"
  iq_table :: string
  iq_columns :: "string list option"
  iq_values :: "expression list list"

record insert_result =
  affectedRows :: nat
  insertId :: val

text \<open>
  The evaluator of \<open>src/query-runner\<close> is not among the source files; the processor
  is defined over any function \<open>ev\<close> for its \<open>evaluateExpression(expression, row)\<close>.
\<close>

type_synonym insert_evaluator = "expression \<Rightarrow> row \<Rightarrow> error + val"

text \<open>
  \<open>columnDefinitionMap.get(column)\<close>: the position of the column object stored under
  the name, the last one when a name is repeated.
\<close>

definition columnDefinitionMap :: "column list \<Rightarrow> string \<Rightarrow> nat option" where
  "columnDefinitionMap cols =
     fold (\<lambda>(j, c) m. m(col_name c \<mapsto> j)) (enumerate 0 cols) Map.empty"

definition isAutoIncrement :: "column \<Rightarrow> bool" where
  "isAutoIncrement c \<longleftrightarrow> integerColumn c \<and> autoIncrement c"

text \<open>\<open>evaluateDefaultValue\<close> for the column object at position \<open>j\<close> of the table.\<close>

definition evaluateDefaultValue ::
  "insert_evaluator \<Rightarrow> nat \<Rightarrow> row \<Rightarrow> table \<Rightarrow> (error + val) \<times> table" where
  "evaluateDefaultValue ev j r t =
     (let c = tcolumns t ! j
      in if isAutoIncrement c
         then (case getNextAutoIncrementValue t j of (n, t') \<Rightarrow> (Inr (VNumber n), t'))
         else (case defaultValueExpression c of
                 Some d \<Rightarrow> (ev d r, t)
               | None \<Rightarrow> (Inr VNull, t)))"

text \<open>
  The first reducer: the raw row of one VALUES tuple, over the pairs of a listed
  column and its value expression (the two lists have the same length here).
\<close>

fun buildRawRow ::
  "insert_evaluator \<Rightarrow> string \<Rightarrow> (string \<times> expression) list \<Rightarrow> row \<Rightarrow> table \<Rightarrow>
   (error + row) \<times> table" where
  "buildRawRow ev tbl [] res t = (Inr res, t)"
| "buildRawRow ev tbl ((col, e) # ces) res t =
     (case (if expr_type e = ''default''
            then (case columnDefinitionMap (tcolumns t) col of
                    None \<Rightarrow>
                      (Inl (ProcessorError
                         (''Unknown column '' @ quoted col @ '' in '' @ quoted ''field list'')), t)
                  | Some j \<Rightarrow> evaluateDefaultValue ev j res t)
            else (ev e res, t)) of
        (Inl err, t') \<Rightarrow> (Inl err, t')
      | (Inr v, t') \<Rightarrow> buildRawRow ev tbl ces (obj_set res (tbl @ ''::'' @ col) v) t')"

text \<open>
  \<open>evaluator.evaluateExpression(columnRef, rawRow) ?? evaluateDefaultValue(c, rawRow)\<close>:
  the right side is taken when the left side is \<open>null\<close> or \<open>undefined\<close>.
\<close>

definition resolveValue ::
  "insert_evaluator \<Rightarrow> string \<Rightarrow> row \<Rightarrow> nat \<Rightarrow> table \<Rightarrow> (error + val) \<times> table" where
  "resolveValue ev tbl rawRow j t =
     (case ev (ColumnRef (Some tbl) (col_name (tcolumns t ! j))) rawRow of
        Inl err \<Rightarrow> (Inl err, t)
      | Inr v \<Rightarrow>
          (if v = VNull \<or> v = VUndefined then evaluateDefaultValue ev j rawRow t
           else (Inr v, t)))"

text \<open>
  An exception of the second reducer: \<open>CastFailure\<close> when \<open>c.cast(value)\<close> raised it
  inside the \<open>try\<close> block, \<open>OtherFailure\<close> when it was raised before the block.
\<close>

datatype failure = CastFailure error | OtherFailure error

fun error_code :: "error \<Rightarrow> string option" where
  "error_code (ServerError code m) = Some code"
| "error_code err = None"

fun error_message :: "error \<Rightarrow> string" where
  "error_message (EvaluatorException m) = m"
| "error_message (ProcessorException m) = m"
| "error_message (SubQueryException m) = m"
| "error_message (ProcessorError m) = m"
| "error_message (ServerError code m) = m"
| "error_message (JsError m) = m"

text \<open>The \<open>catch\<close> block around the cast, for the row at 0-based \<open>rowIndex\<close>.\<close>

fun catchCast :: "nat \<Rightarrow> failure \<Rightarrow> error" where
  "catchCast rowIndex (CastFailure err) =
     (if error_code err \<in> Some ` set [''OUT_OF_RANGE_VALUE'', ''INCORRECT_INTEGER_VALUE'']
      then ProcessorError (error_message err @ '' at row '' @ show_nat (rowIndex + 1))
      else err)"
| "catchCast rowIndex (OtherFailure err) = err"

definition noDefaultMessage :: "string \<Rightarrow> string" where
  "noDefaultMessage name =
     ''Field '' @ quoted name @ '' doesn'' @ [CHR 0x27] @ ''t have a default value''"

text \<open>
  The second reducer, over the positions of the table's columns: the final row so
  far, and \<open>insertId\<close>.
\<close>

fun buildRow ::
  "insert_evaluator \<Rightarrow> string \<Rightarrow> row \<Rightarrow> nat list \<Rightarrow> row \<Rightarrow> val \<Rightarrow> table \<Rightarrow>
   (failure + row \<times> val) \<times> table" where
  "buildRow ev tbl rawRow [] res iid t = (Inr (res, iid), t)"
| "buildRow ev tbl rawRow (j # js) res iid t =
     (case resolveValue ev tbl rawRow j t of
        (Inl err, t') \<Rightarrow> (Inl (OtherFailure err), t')
      | (Inr v, t') \<Rightarrow>
          (let c = tcolumns t' ! j
           in if v = VNull \<and> \<not> nullable c
              then (Inl (OtherFailure (ProcessorError (noDefaultMessage (col_name c)))), t')
              else
                (case cast c v of
                   Inl err \<Rightarrow> (Inl (CastFailure err), t')
                 | Inr v' \<Rightarrow>
                     buildRow ev tbl rawRow js (obj_set res (col_name c) v')
                       (if isAutoIncrement c then v else iid) t')))"

definition columnPositions :: "table \<Rightarrow> nat list" where
  "columnPositions t = map fst (enumerate 0 (tcolumns t))"

definition countMismatchMessage :: "nat \<Rightarrow> string" where
  "countMismatchMessage rowIndex =
     ''Column count doesn'' @ [CHR 0x27] @ ''t match value count at row '' @
     show_nat (rowIndex + 1)"

text \<open>The body of the loop over \<open>query.values\<close>, for the tuple at \<open>rowIndex\<close>.\<close>

definition insertValues ::
  "insert_evaluator \<Rightarrow> string \<Rightarrow> string list \<Rightarrow> nat \<Rightarrow> expression list \<Rightarrow>
   insert_result \<Rightarrow> table \<Rightarrow> (error + insert_result) \<times> table" where
  "insertValues ev tbl cols rowIndex vs acc t =
     (if length vs \<noteq> length cols then (Inl (ProcessorError (countMismatchMessage rowIndex)), t)
      else
        (case buildRawRow ev tbl (zip cols vs) [] t of
           (Inl err, t1) \<Rightarrow> (Inl err, t1)
         | (Inr rawRow, t1) \<Rightarrow>
             (case buildRow ev tbl rawRow (columnPositions t1) [] (insertId acc) t1 of
                (Inl f, t2) \<Rightarrow> (Inl (catchCast rowIndex f), t2)
              | (Inr (r, iid), t2) \<Rightarrow>
                  (Inr \<lparr>affectedRows = affectedRows acc + 1, insertId = iid\<rparr>,
                   insertRow t2 r))))"

fun insertAll ::
  "insert_evaluator \<Rightarrow> string \<Rightarrow> string list \<Rightarrow> nat \<Rightarrow> expression list list \<Rightarrow>
   insert_result \<Rightarrow> table \<Rightarrow> (error + insert_result) \<times> table" where
  "insertAll ev tbl cols rowIndex [] acc t = (Inr acc, t)"
| "insertAll ev tbl cols rowIndex (vs # vss) acc t =
     (case insertValues ev tbl cols rowIndex vs acc t of
        (Inl err, t') \<Rightarrow> (Inl err, t')
      | (Inr acc', t') \<Rightarrow> insertAll ev tbl cols (Suc rowIndex) vss acc' t')"

text \<open>\<open>query.columns || columnDefinitions.map((c) => c.getName())\<close>.\<close>

definition insertColumns :: "insert_query \<Rightarrow> table \<Rightarrow> string list" where
  "insertColumns q t = (case iq_columns q of None \<Rightarrow> map col_name (tcolumns t) | Some cs \<Rightarrow> cs)"

text \<open>
  \<open>InsertProcessor.process\<close> on the table the server gave: the summary or the
  exception, and the table as the call leaves it.
\<close>

definition insertInto ::
  "insert_evaluator \<Rightarrow> insert_query \<Rightarrow> table \<Rightarrow> (error + insert_result) \<times> table" where
  "insertInto ev q t =
     insertAll ev (iq_table q) (insertColumns q t) 0 (iq_values q)
       \<lparr>affectedRows = 0, insertId = VNumber 0\<rparr> t"

definition insertProcess ::
  "insert_evaluator \<Rightarrow> server \<Rightarrow> insert_query \<Rightarrow> error + (error + insert_result) \<times> table" where
  "insertProcess ev srv q =
     (case lookupTable srv (iq_database q) (iq_table q) of
        Inl err \<Rightarrow> Inl err
      | Inr t \<Rightarrow> Inr (insertInto ev q t))"

section \<open>The collaborators of the examples\<close>

text \<open>
  Modelled from the spec: the column rule of the evaluator of the SELECT pipeline
  (\<open>src/processor/evaluator\<close>, not among the source files). A reference "resolves
  against the row by trying, in order, \<open>T::c\<close>, \<open>::c\<close> (alias scope), and - only when
  table is absent - any single \<open>?::c\<close> match. Zero matches: \<open>Unknown column 'X'\<close>; two
  matches: \<open>Column 'c' in field list is ambiguous\<close>." The outer context of a
  correlated sub-query is not modelled.
\<close>

fun splitKey :: "string \<Rightarrow> string \<Rightarrow> (string \<times> string) option" where
  "splitKey acc [] = None"
| "splitKey acc [a] = None"
| "splitKey acc (a # b # r) =
     (if a = CHR '':'' \<and> b = CHR '':'' then Some (rev acc, r) else splitKey (a # acc) (b # r))"

text \<open>
  Modelled from the spec: the resolution of \<open>column_ref{table, column}\<close> against a row, in
  the order \<open>T::c\<close>, \<open>::c\<close>, and a single \<open>?::c\<close> when there is no table.
\<close>

definition resolveColumn :: "string option \<Rightarrow> string \<Rightarrow> row \<Rightarrow> error + val" where
  "resolveColumn t c r =
     (if truthy_str t \<and> map_of r (the t @ ''::'' @ c) \<noteq> None
      then Inr (obj_get r (the t @ ''::'' @ c))
      else if map_of r (''::'' @ c) \<noteq> None then Inr (obj_get r (''::'' @ c))
      else if \<not> truthy_str t then
        (case filter (\<lambda>(k, v). case splitKey [] k of None \<Rightarrow> False | Some (q, n) \<Rightarrow> n = c) r of
           [] \<Rightarrow> Inl (EvaluatorException (''Unknown column '' @ quoted c))
         | [(k, v)] \<Rightarrow> Inr v
         | _ \<Rightarrow> Inl (EvaluatorException (''Column '' @ quoted c @ '' in field list is ambiguous'')))
      else Inl (EvaluatorException (''Unknown column '' @ quoted (the t @ ''.'' @ c))))"

text \<open>The lower-case form of an ASCII letter.\<close>

definition lower_char :: "char \<Rightarrow> char" where
  "lower_char c =
     (if 65 \<le> (of_char c :: nat) \<and> (of_char c :: nat) \<le> 90
      then char_of ((of_char c :: nat) + 32) else c)"

text \<open>
  Modelled from the spec: \<open>evaluateExpression\<close> of the same evaluator, on the forms
  the examples of this development evaluate. A literal is its value; a column
  reference follows the rule above; a binary expression has the evaluator "evaluate
  both sides", and the operator \<open>=\<close> tells whether the two values are the same;
  "scalar functions are looked up by lower-cased name (\<open>database()\<close>: current database
  name)"; "\<open>count(*)\<close> = group size", and "aggregates require group to be provided". The
  other operators, the other aggregates, \<open>CASE\<close> and sub-queries are outside this
  model: they end in \<open>not modelled\<close>.
\<close>

fun specEvaluate ::
  "server \<Rightarrow> expression \<Rightarrow> row option \<Rightarrow> row list option \<Rightarrow> error + val" where
  "specEvaluate srv (NumberE n) r g = Inr (VNumber n)"
| "specEvaluate srv (StringE s) r g = Inr (VString s)"
| "specEvaluate srv (BooleanE b) r g = Inr (VBoolean b)"
| "specEvaluate srv NullE r g = Inr VNull"
| "specEvaluate srv (ColumnRef t c) r g =
     resolveColumn t c (case r of None \<Rightarrow> [] | Some x \<Rightarrow> x)"
| "specEvaluate srv (BinaryExpression ope lhs rhs) r g =
     (if ope = ''='' then
        (case specEvaluate srv lhs r g of
           Inl err \<Rightarrow> Inl err
         | Inr a \<Rightarrow>
             (case specEvaluate srv rhs r g of
                Inl err \<Rightarrow> Inl err
              | Inr b \<Rightarrow> Inr (VBoolean (a = b))))
      else Inl (JsError ''not modelled''))"
| "specEvaluate srv (FunctionE n args d) r g =
     (if map lower_char n = ''database'' then Inr (VString (currentDatabase srv))
      else if map lower_char n = ''count'' \<and> args = [Star None] then
        (case g of
           None \<Rightarrow> Inl (EvaluatorException ''Aggregate function without a group'')
         | Some rs \<Rightarrow> Inr (VNumber (int (length rs))))
      else Inl (JsError ''not modelled''))"
| "specEvaluate srv e r g = Inl (JsError ''not modelled'')"

text \<open>
  Modelled from the spec: \<open>evaluateStar\<close>, over the keys of the row: "keep entries
  whose qualifier equals the requested table (or all \<open>T::*\<close> when table omitted);
  output key is the unqualified column name".
\<close>

fun specEvaluateStar :: "expression \<Rightarrow> row option \<Rightarrow> error + row" where
  "specEvaluateStar (Star t) r =
     Inr (fold (\<lambda>(k, v) res.
            case splitKey [] k of
              None \<Rightarrow> res
            | Some (q, n) \<Rightarrow>
                if q \<noteq> [] \<and> (\<not> truthy_str t \<or> t = Some q) then obj_set res n v else res)
          (case r of None \<Rightarrow> [] | Some x \<Rightarrow> x) [])"
| "specEvaluateStar e r = Inl (JsError ''not modelled'')"

text \<open>
  Modelled from the spec: the evaluator class, which "holds references to the Server"
  and the context; the context is not read by the forms modelled here. The evaluator
  of the spec goes by the tag of the expression and has no rule for a missing
  expression: reading the tag of \<open>undefined\<close> is a \<open>TypeError\<close> of the runtime.
\<close>

definition specEvaluator :: evaluator_class where
  "specEvaluator srv ctx =
     \<lparr>evaluateExpression = specEvaluate srv,
      evaluateUndefined = (\<lambda>r g. Inl (JsError ''Cannot read properties of undefined'')),
      evaluateStar = specEvaluateStar\<rparr>"

text \<open>
  Modelled from the spec: \<open>sortBy\<close> of \<open>src/utils\<close> under \<open>Array.prototype.sort\<close>, which
  is stable. "Sort rows by composite key: each ORDER BY term produces a mapping
  function and a direction (ASC = +1, DESC = -1). Comparison is type-aware (numbers
  numerically, strings lexicographically); nulls sort first under ASC." Values of
  two different kinds compare equal here.
\<close>

fun compareStr :: "string \<Rightarrow> string \<Rightarrow> int" where
  "compareStr [] [] = 0"
| "compareStr [] (b # bs) = - 1"
| "compareStr (a # as) [] = 1"
| "compareStr (a # as) (b # bs) =
     (if (of_char a :: nat) < of_char b then - 1
      else if (of_char a :: nat) = of_char b then compareStr as bs
      else 1)"

text \<open>
  Modelled from the spec: the type-aware comparison of two sort keys, "numbers
  numerically, strings lexicographically", null first.
\<close>

fun compareVal :: "val \<Rightarrow> val \<Rightarrow> int" where
  "compareVal (VNumber a) (VNumber b) = (if a < b then - 1 else if a = b then 0 else 1)"
| "compareVal (VString a) (VString b) = compareStr a b"
| "compareVal VNull VNull = 0"
| "compareVal VNull b = - 1"
| "compareVal a VNull = 1"
| "compareVal a b = 0"

text \<open>
  Modelled from the spec: the comparator of \<open>sortBy\<close>, the first ORDER BY term whose keys
  differ decides, with its direction.
\<close>

fun compareRows :: "sort_key list \<Rightarrow> row \<Rightarrow> row \<Rightarrow> error + int" where
  "compareRows [] a b = Inr 0"
| "compareRows ((mapper, ord) # ks) a b =
     (case mapper a of
        Inl err \<Rightarrow> Inl err
      | Inr va \<Rightarrow>
          (case mapper b of
             Inl err \<Rightarrow> Inl err
           | Inr vb \<Rightarrow>
               (if compareVal va vb \<noteq> 0 then Inr (compareVal va vb * ord)
                else compareRows ks a b)))"

text \<open>
  Modelled from the spec: the sort itself, as the stable insertion of every row into
  the sorted rest; an exception of a key mapper ends it.
\<close>

fun insertSorted :: "sort_key list \<Rightarrow> row \<Rightarrow> row list \<Rightarrow> error + row list" where
  "insertSorted ks x [] = Inr [x]"
| "insertSorted ks x (y # ys) =
     (case compareRows ks x y of
        Inl err \<Rightarrow> Inl err
      | Inr c \<Rightarrow>
          (if c \<le> 0 then Inr (x # y # ys)
           else (case insertSorted ks x ys of Inl err \<Rightarrow> Inl err | Inr r \<Rightarrow> Inr (y # r))))"

fun specSortRows :: "sort_key list \<Rightarrow> row list \<Rightarrow> error + row list" where
  "specSortRows ks [] = Inr []"
| "specSortRows ks (x # xs) =
     (case specSortRows ks xs of Inl err \<Rightarrow> Inl err | Inr r \<Rightarrow> insertSorted ks x r)"

text \<open>
  The utilities of the examples. The spec asks of \<open>hashCode\<close> only that it is a
  function of the group key ("hash into a stable bucket"); the examples take the
  usual string hash with multiplier 31 on signed 32-bit integers.
\<close>

definition int32 :: "int \<Rightarrow> int" where
  "int32 x = (x + 2147483648) mod 4294967296 - 2147483648"

definition stringHash :: "string \<Rightarrow> int" where
  "stringHash key = fold (\<lambda>c h. int32 (31 * h + int (of_char c))) key 0"

definition specUtils :: utils where
  "specUtils = \<lparr>hashCode = stringHash, sortRows = specSortRows\<rparr>"

text \<open>
  Modelled from the spec: the evaluator of the INSERT processor
  (\<open>src/query-runner/evaluator\<close>, not among the source files), on literals and on the
  column references the processor builds. The final row is made by "reading each
  value from rawRow (falling back to the default evaluator when unset)": a reference
  is the value under \<open>table::column\<close>, \<open>undefined\<close> when the raw row has no such key.
\<close>

fun insertEvaluate :: insert_evaluator where
  "insertEvaluate (NumberE n) r = Inr (VNumber n)"
| "insertEvaluate (StringE s) r = Inr (VString s)"
| "insertEvaluate (BooleanE b) r = Inr (VBoolean b)"
| "insertEvaluate NullE r = Inr VNull"
| "insertEvaluate (ColumnRef (Some t) c) r = Inr (obj_get r (t @ ''::'' @ c))"
| "insertEvaluate e r = Inl (JsError ''not modelled'')"

text \<open>\<open>String(v)\<close>.\<close>

fun to_string :: "val \<Rightarrow> string" where
  "to_string (VNumber n) = show_int n"
| "to_string (VString s) = s"
| "to_string (VBoolean b) = (if b then ''true'' else ''false'')"
| "to_string VNull = ''null''"
| "to_string VUndefined = ''undefined''"

text \<open>A "numeric-looking" string: decimal digits, with a minus sign in front or not.\<close>

definition parse_int :: "string \<Rightarrow> int option" where
  "parse_int s =
     (case s of
        [] \<Rightarrow> None
      | c # cs \<Rightarrow>
          (if c = CHR ''-'' then (if cs = [] then None else map_option (\<lambda>n. - int n) (parse_nat 0 cs))
           else map_option int (parse_nat 0 s)))"

text \<open>
  Modelled from the spec: the casts of the column kinds. "Integer(width, signed,
  unsigned): accept integers and numeric-looking strings; reject NaN/non-numeric with
  \<open>INCORRECT_INTEGER_VALUE\<close>; clamp-check against range, emit \<open>OUT_OF_RANGE_VALUE\<close> when
  exceeded." "Varchar(n): coerce to string, truncate is not silent - lengths beyond
  \<open>n\<close> raise an out-of-range error." "\<open>null\<close> passes iff column is nullable." The spec
  does not give the message texts: \<open>msg\<close> maps a machine code to the text.
\<close>

definition castNull :: "bool \<Rightarrow> (string \<Rightarrow> string) \<Rightarrow> error + val" where
  "castNull nullable_flag msg =
     (if nullable_flag then Inr VNull else Inl (ServerError ''BAD_NULL'' (msg ''BAD_NULL'')))"

text \<open>Modelled from the spec: the range check of an integer column.\<close>

definition castRange :: "int \<Rightarrow> int \<Rightarrow> (string \<Rightarrow> string) \<Rightarrow> int \<Rightarrow> error + val" where
  "castRange lo hi msg n =
     (if lo \<le> n \<and> n \<le> hi then Inr (VNumber n)
      else Inl (ServerError ''OUT_OF_RANGE_VALUE'' (msg ''OUT_OF_RANGE_VALUE'')))"

text \<open>Modelled from the spec: the cast of \<open>Integer(width, signed, unsigned)\<close>, with its range.\<close>

fun integerCast :: "int \<Rightarrow> int \<Rightarrow> bool \<Rightarrow> (string \<Rightarrow> string) \<Rightarrow> val \<Rightarrow> error + val" where
  "integerCast lo hi nl msg VNull = castNull nl msg"
| "integerCast lo hi nl msg (VNumber n) = castRange lo hi msg n"
| "integerCast lo hi nl msg (VString s) =
     (case parse_int s of
        None \<Rightarrow> Inl (ServerError ''INCORRECT_INTEGER_VALUE'' (msg ''INCORRECT_INTEGER_VALUE''))
      | Some n \<Rightarrow> castRange lo hi msg n)"
| "integerCast lo hi nl msg v =
     Inl (ServerError ''INCORRECT_INTEGER_VALUE'' (msg ''INCORRECT_INTEGER_VALUE''))"

text \<open>Modelled from the spec: the cast of \<open>Varchar(n)\<close>.\<close>

fun varcharCast :: "nat \<Rightarrow> bool \<Rightarrow> (string \<Rightarrow> string) \<Rightarrow> val \<Rightarrow> error + val" where
  "varcharCast n nl msg VNull = castNull nl msg"
| "varcharCast n nl msg v =
     (if n < length (to_string v)
      then Inl (ServerError ''OUT_OF_RANGE_VALUE'' (msg ''OUT_OF_RANGE_VALUE''))
      else Inr (VString (to_string v)))"

text \<open>
  Modelled from the spec: a new integer column and a new varchar column, with the
  casts above and the counter at 0.
\<close>

definition integerColumnOf ::
  "string \<Rightarrow> bool \<Rightarrow> expression option \<Rightarrow> bool \<Rightarrow> int \<Rightarrow> int \<Rightarrow> (string \<Rightarrow> string) \<Rightarrow> column" where
  "integerColumnOf name nl dflt autoInc lo hi msg =
     \<lparr>col_name = name, nullable = nl, defaultValueExpression = dflt, integerColumn = True,
      autoIncrement = autoInc, autoIncrementCursor = 0, cast = integerCast lo hi nl msg\<rparr>"

definition varcharColumnOf ::
  "string \<Rightarrow> bool \<Rightarrow> expression option \<Rightarrow> nat \<Rightarrow> (string \<Rightarrow> string) \<Rightarrow> column" where
  "varcharColumnOf name nl dflt n msg =
     \<lparr>col_name = name, nullable = nl, defaultValueExpression = dflt, integerColumn = False,
      autoIncrement = False, autoIncrementCursor = 0, cast = varcharCast n nl msg\<rparr>"

text \<open>A server with one database, whose tables are looked up by name.\<close>

definition serverOf :: "string \<Rightarrow> (string \<times> table) list \<Rightarrow> server" where
  "serverOf db tabs =
     \<lparr>currentDatabase = db,
      lookupTable = (\<lambda>d t. case map_of tabs t of
                               None \<Rightarrow> Inl (JsError ''unknown table'')
                             | Some tab \<Rightarrow> Inr tab)\<rparr>"

section \<open>The words of the specification\<close>

text \<open>
  "A function, expression, literal, CASE, or sub-query column": the columns for
  which the SELECT stage gives an empty row set one input row.
\<close>

fun computedExpression :: "expression \<Rightarrow> bool" where
  "computedExpression (FunctionE n args d) = True"
| "computedExpression (BinaryExpression ope l r) = True"
| "computedExpression (NumberE n) = True"
| "computedExpression (StringE s) = True"
| "computedExpression (BooleanE b) = True"
| "computedExpression NullE = True"
| "computedExpression (CaseE ws e) = True"
| "computedExpression (SelectE q) = True"
| "computedExpression e = False"







text \<open>The tree the parser gives for \<open>SELECT database()\<close>.\<close>

definition selectDatabaseAst :: ast_select where
  "selectDatabaseAst =
     \<lparr>ast_from = [], ast_columns = [AstColumn (AstFunction ''database'' []) None],
      ast_where = None, ast_groupby = [], ast_orderby = [], ast_limit = None\<rparr>"

text \<open>
  The query object with the property \<open>having\<close> set to \<open>null\<close>: a query without HAVING
  clause, as the processor tests for it.
\<close>

definition havingNull :: "select_query \<Rightarrow> select_query" where
  "havingNull q =
     SelectQuery (from_list q) (select_columns q) (where_expr q) (groupBy q) Null (orderBy q)
       (limit q) (offset q) (is_distinct q)"

text \<open>The same query with an empty ORDER BY list.\<close>

definition withoutOrderBy :: "select_query \<Rightarrow> select_query" where
  "withoutOrderBy q =
     SelectQuery (from_list q) (select_columns q) (where_expr q) (groupBy q) (having q) []
       (limit q) (offset q) (is_distinct q)"

text \<open>The first three stages of \<open>process\<close>: the processor as the ORDER BY stage finds it.\<close>

definition beforeOrderBy ::
  "evaluator_class \<Rightarrow> utils \<Rightarrow> server \<Rightarrow> row \<Rightarrow> select_query \<Rightarrow> error + processor" where
  "beforeOrderBy EC U srv ctx q =
     (case applyFrom EC U srv ctx (from_list q) 0 init_processor of
        Inl err \<Rightarrow> Inl err
      | Inr s0 \<Rightarrow>
          (case applyWhere (EC srv ctx) q s0 of
             Inl err \<Rightarrow> Inl err
           | Inr s1 \<Rightarrow> applyGroupBy (EC srv ctx) U q s1))"

text \<open>What the stages after ORDER BY return.\<close>

definition afterOrderBy :: "evaluator \<Rightarrow> select_query \<Rightarrow> processor \<Rightarrow> error + row list" where
  "afterOrderBy E q s =
     (case applySelectAndHaving E q s of
        Inl err \<Rightarrow> Inl err
      | Inr s4 \<Rightarrow> (case applyLimit q s4 of Inl err \<Rightarrow> Inl err | Inr s5 \<Rightarrow> Inr (this_rows s5)))"

text \<open>
  The tables and queries of the ORDER BY examples: \<open>SELECT count(*) FROM t HAVING
  t.active\<close> over two rows, and \<open>SELECT count(*) c FROM t GROUP BY t.id\<close> over three,
  each with a given ORDER BY list.
\<close>

definition flagsTable :: table where
  "flagsTable =
     \<lparr>tcolumns = [integerColumnOf ''id'' False None True 0 4294967295 (\<lambda>code. code),
                  integerColumnOf ''active'' False None False 0 255 (\<lambda>code. code)],
      trows = [[(''id'', VNumber 1), (''active'', VNumber 0)],
               [(''id'', VNumber 2), (''active'', VNumber 1)]]\<rparr>"

definition countHaving :: "(expression \<times> order) list \<Rightarrow> select_query" where
  "countHaving ob =
     SelectQuery [FromTable None ''t'' None None None]
       [SelectColumn (FunctionE ''count'' [Star None] False) ''count()'' None]
       None [] (Defined (ColumnRef (Some ''t'') ''active'')) ob 0 0 False"

definition countById :: "(expression \<times> order) list \<Rightarrow> select_query" where
  "countById ob =
     SelectQuery [FromTable None ''t'' None None None]
       [SelectColumn (FunctionE ''count'' [Star None] False) ''count()'' (Some ''c'')]
       None [ColumnRef (Some ''t'') ''id''] Null ob 0 0 False"

definition idsTable :: table where
  "idsTable =
     \<lparr>tcolumns = [integerColumnOf ''id'' False None False 0 4294967295 (\<lambda>code. code)],
      trows = [[(''id'', VNumber 1)], [(''id'', VNumber 1)], [(''id'', VNumber 2)]]\<rparr>"

text \<open>A column without its counter: what an INSERT never changes.\<close>

definition static :: "column \<Rightarrow> column" where
  "static c = c\<lparr>autoIncrementCursor := 0\<rparr>"

text \<open>
  The tables and statements of the INSERT examples: \<open>t(id INT UNSIGNED
  AUTO_INCREMENT, name VARCHAR(3) NOT NULL)\<close> with \<open>INSERT INTO t (name) VALUES ...\<close>,
  and a table with one nullable column \<open>note VARCHAR(10)\<close>, once with \<open>DEFAULT NULL\<close>
  and once with \<open>DEFAULT 'none'\<close>, with \<open>INSERT INTO t (note) VALUES ...\<close>. The
  message of a cast error is its machine code here.
\<close>

definition exampleTable :: table where
  "exampleTable =
     \<lparr>tcolumns = [integerColumnOf ''id'' True None True 0 4294967295 (\<lambda>code. code),
                  varcharColumnOf ''name'' False None 3 (\<lambda>code. code)],
      trows = []\<rparr>"

definition insertNames :: "expression list list \<Rightarrow> insert_query" where
  "insertNames vss =
     \<lparr>iq_database = None, iq_table = ''t'', iq_columns = Some [''name''], iq_values = vss\<rparr>"

text \<open>\<open>INSERT INTO t (id, name) VALUES ...\<close> on the same table.\<close>

definition insertPairs :: "expression list list \<Rightarrow> insert_query" where
  "insertPairs vss =
     \<lparr>iq_database = None, iq_table = ''t'', iq_columns = Some [''id'', ''name''],
      iq_values = vss\<rparr>"




section \<open>Properties of the processor state\<close>

lemma this_rows_assign_rows [simp]: "this_rows (assign_rows xs s) = xs"
  by (simp add: this_rows_def assign_rows_def new_array_def)

lemma this_rows_update_rows [simp]: "this_rows (update_rows xs s) = xs"
  by (simp add: this_rows_def update_rows_def)

lemma assign_rows_fields [simp]:
  "groupedRows (assign_rows xs s) = groupedRows s"
  "columns (assign_rows xs s) = columns s"
  "rows (assign_rows xs s) = fresh s"
  "fresh (assign_rows xs s) = Suc (fresh s)"
  "heap (assign_rows xs s) = (heap s)(fresh s := xs)"
  by (simp_all add: assign_rows_def new_array_def)

lemma update_rows_fields [simp]:
  "groupedRows (update_rows xs s) = groupedRows s"
  "columns (update_rows xs s) = columns s"
  "rows (update_rows xs s) = rows s"
  "fresh (update_rows xs s) = fresh s"
  "heap (update_rows xs s) = (heap s)(rows s := xs)"
  by (simp_all add: update_rows_def)

lemma this_rows_columns_update [simp]:
  "this_rows (s\<lparr>columns := cs\<rparr>) = this_rows s"
  by (simp add: this_rows_def)

lemma this_rows_applyDistinct:
  "this_rows (applyDistinct q s) =
     (if is_distinct q \<and> this_rows s \<noteq> []
      then distinctRows (obj_keys (hd (this_rows s))) [] (this_rows s) else this_rows s)"
  by (simp add: applyDistinct_def)

lemma injectRow_inv:
  "groupedRows (injectRow q s) = groupedRows s \<and>
   (\<forall>a. a \<noteq> fresh s \<longrightarrow> heap (injectRow q s) a = heap s a)"
  by (simp add: injectRow_def)

lemma process_unfold:
  "process EC U srv ctx q =
     (case applyFrom EC U srv ctx (from_list q) 0 init_processor of
        Inl err \<Rightarrow> Inl err
      | Inr s \<Rightarrow> afterFrom (EC srv ctx) U q s)"
  by (cases q) auto

section \<open>GROUP BY without a GROUP BY list\<close>

lemma isAggregateColumn_iff:
  "isAggregateColumn c \<longleftrightarrow>
     (\<exists>n args d. sc_expr c = FunctionE n args d \<and>
        n \<in> {''count'', ''sum'', ''min'', ''max'', ''avg''})"
proof (cases c)
  case (SelectColumn e tx a)
  then show ?thesis
    by (cases e) (auto simp: isAggregateColumn_def sc_type_def)
qed

lemma isColumnRef_iff: "isColumnRef c \<longleftrightarrow> (\<exists>t x. sc_expr c = ColumnRef t x)"
proof (cases c)
  case (SelectColumn e tx a)
  then show ?thesis
    by (cases e) (auto simp: isColumnRef_def sc_type_def)
qed

lemma find_columnRefIndex:
  "find P cols = Some c \<Longrightarrow>
   length (takeWhile (\<lambda>x. \<not> P x) cols) < length cols \<and>
   cols ! length (takeWhile (\<lambda>x. \<not> P x) cols) = c \<and>
   (\<forall>m < length (takeWhile (\<lambda>x. \<not> P x) cols). \<not> P (cols ! m))"
proof (induction cols)
  case Nil
  then show ?case by simp
next
  case (Cons x xs)
  show ?case
  proof (cases "P x")
    case True
    with Cons.prems show ?thesis by simp
  next
    case False
    with Cons have ih:
      "length (takeWhile (\<lambda>x. \<not> P x) xs) < length xs"
      "xs ! length (takeWhile (\<lambda>x. \<not> P x) xs) = c"
      "\<forall>m < length (takeWhile (\<lambda>x. \<not> P x) xs). \<not> P (xs ! m)"
      by simp_all
    from False ih show ?thesis
      by (auto simp: nth_Cons split: nat.splits)
  qed
qed

lemma columnName_ref:
  "sc_expr c = ColumnRef t x \<Longrightarrow>
   columnName c = (case t of None \<Rightarrow> x | Some tn \<Rightarrow> if tn = [] then x else tn @ ''.'' @ x)"
  by (cases c; cases t) auto

text \<open>
  C1. With an empty GROUP BY list: when no aggregate function (count, sum, min, max,
  avg) is among the SELECT columns the stage leaves the processor as it is; when
  there is one and a column reference is among the SELECT columns, the stage raises
  the ProcessorException whose message names the 1-based position of the first
  column reference and its name, with the table in front when it has one; when there
  is one and no column reference, the rows array becomes the single group, under the
  key 1.
\<close>

theorem groupBy_empty:
  assumes "groupBy q = []"
  shows
    "(\<not> (\<exists>c \<in> set (select_columns q). \<exists>n args d. sc_expr c = FunctionE n args d \<and>
            n \<in> {''count'', ''sum'', ''min'', ''max'', ''avg''}) \<longrightarrow>
        applyGroupBy E U q s = Inr s) \<and>
     ((\<exists>c \<in> set (select_columns q). \<exists>n args d. sc_expr c = FunctionE n args d \<and>
            n \<in> {''count'', ''sum'', ''min'', ''max'', ''avg''}) \<and>
      (\<exists>c \<in> set (select_columns q). \<exists>t x. sc_expr c = ColumnRef t x) \<longrightarrow>
        (\<exists>i t x. i < length (select_columns q) \<and>
           sc_expr (select_columns q ! i) = ColumnRef t x \<and>
           (\<forall>m < i. \<forall>t' x'. sc_expr (select_columns q ! m) \<noteq> ColumnRef t' x') \<and>
           applyGroupBy E U q s =
             Inl (ProcessorException
               (''In aggregated query without GROUP BY, expression #'' @ show_nat (i + 1) @
                '' of SELECT list contains nonaggregated column '' @ [CHR 0x27] @
                (case t of None \<Rightarrow> x | Some tn \<Rightarrow> if tn = [] then x else tn @ ''.'' @ x) @
                [CHR 0x27])))) \<and>
     ((\<exists>c \<in> set (select_columns q). \<exists>n args d. sc_expr c = FunctionE n args d \<and>
            n \<in> {''count'', ''sum'', ''min'', ''max'', ''avg''}) \<and>
      \<not> (\<exists>c \<in> set (select_columns q). \<exists>t x. sc_expr c = ColumnRef t x) \<longrightarrow>
        applyGroupBy E U q s = Inr (s\<lparr>groupedRows := map_set (groupedRows s) 1 (rows s)\<rparr>) \<and>
        (groupedRows s = [] \<longrightarrow>
           (\<exists>s'. applyGroupBy E U q s = Inr s' \<and>
              map (\<lambda>(h, a). heap s' a) (groupedRows s') = [this_rows s])))"
proof (rule conjI [OF _ conjI]; rule impI)
  assume "\<not> (\<exists>c \<in> set (select_columns q). \<exists>n args d. sc_expr c = FunctionE n args d \<and>
            n \<in> {''count'', ''sum'', ''min'', ''max'', ''avg''})"
  then have "\<not> hasAggregateFunction (select_columns q)"
    by (simp add: hasAggregateFunction_def list_ex_iff isAggregateColumn_iff)
  with assms show "applyGroupBy E U q s = Inr s"
    by (simp add: applyGroupBy_def)
next
  assume h: "(\<exists>c \<in> set (select_columns q). \<exists>n args d. sc_expr c = FunctionE n args d \<and>
            n \<in> {''count'', ''sum'', ''min'', ''max'', ''avg''}) \<and>
      (\<exists>c \<in> set (select_columns q). \<exists>t x. sc_expr c = ColumnRef t x)"
  then have agg: "hasAggregateFunction (select_columns q)"
    by (simp add: hasAggregateFunction_def list_ex_iff isAggregateColumn_iff)
  from h have "\<exists>c \<in> set (select_columns q). isColumnRef c"
    by (simp add: isColumnRef_iff)
  then obtain c where f: "find isColumnRef (select_columns q) = Some c"
    by (cases "find isColumnRef (select_columns q)") (auto simp: find_None_iff)
  let ?i = "columnRefIndex (select_columns q)"
  from find_columnRefIndex [OF f] have i:
    "?i < length (select_columns q)" "select_columns q ! ?i = c"
    "\<forall>m < ?i. \<not> isColumnRef (select_columns q ! m)"
    by (simp_all add: columnRefIndex_def)
  from f have "isColumnRef c" by (auto simp: find_Some_iff)
  then obtain t x where c: "sc_expr c = ColumnRef t x"
    by (auto simp: isColumnRef_iff)
  have "applyGroupBy E U q s =
          Inl (ProcessorException (nonaggregatedMessage (?i + 1) (columnName c)))"
    using assms agg f by (simp add: applyGroupBy_def)
  with i c show "\<exists>i t x. i < length (select_columns q) \<and>
           sc_expr (select_columns q ! i) = ColumnRef t x \<and>
           (\<forall>m < i. \<forall>t' x'. sc_expr (select_columns q ! m) \<noteq> ColumnRef t' x') \<and>
           applyGroupBy E U q s =
             Inl (ProcessorException
               (''In aggregated query without GROUP BY, expression #'' @ show_nat (i + 1) @
                '' of SELECT list contains nonaggregated column '' @ [CHR 0x27] @
                (case t of None \<Rightarrow> x | Some tn \<Rightarrow> if tn = [] then x else tn @ ''.'' @ x) @
                [CHR 0x27]))"
    by (intro exI [of _ ?i] exI [of _ t] exI [of _ x])
       (simp add: isColumnRef_iff nonaggregatedMessage_def quoted_def columnName_ref)
next
  assume h: "(\<exists>c \<in> set (select_columns q). \<exists>n args d. sc_expr c = FunctionE n args d \<and>
            n \<in> {''count'', ''sum'', ''min'', ''max'', ''avg''}) \<and>
      \<not> (\<exists>c \<in> set (select_columns q). \<exists>t x. sc_expr c = ColumnRef t x)"
  then have agg: "hasAggregateFunction (select_columns q)"
    by (simp add: hasAggregateFunction_def list_ex_iff isAggregateColumn_iff)
  from h have "find isColumnRef (select_columns q) = None"
    by (simp add: find_None_iff isColumnRef_iff)
  with assms agg have r: "applyGroupBy E U q s =
      Inr (s\<lparr>groupedRows := map_set (groupedRows s) 1 (rows s)\<rparr>)"
    by (simp add: applyGroupBy_def)
  then have "groupedRows s = [] \<longrightarrow>
           (\<exists>s'. applyGroupBy E U q s = Inr s' \<and>
              map (\<lambda>(h, a). heap s' a) (groupedRows s') = [this_rows s])"
    by (simp add: this_rows_def)
  with r show "applyGroupBy E U q s =
      Inr (s\<lparr>groupedRows := map_set (groupedRows s) 1 (rows s)\<rparr>) \<and>
      (groupedRows s = [] \<longrightarrow>
           (\<exists>s'. applyGroupBy E U q s = Inr s' \<and>
              map (\<lambda>(h, a). heap s' a) (groupedRows s') = [this_rows s]))"
    by simp
qed

theorem groupBy_empty_witness:
  "applyGroupBy (specEvaluator (serverOf ''mydb'' []) []) specUtils
     (SelectQuery [] [SelectColumn (ColumnRef None ''id'') [] None] None [] Null [] 0 0 False)
     init_processor = Inr init_processor \<and>
   applyGroupBy (specEvaluator (serverOf ''mydb'' []) []) specUtils
     (SelectQuery []
        [SelectColumn (FunctionE ''count'' [Star None] False) ''count()'' None,
         SelectColumn (ColumnRef (Some ''t'') ''name'') [] None] None [] Null [] 0 0 False)
     init_processor =
     Inl (ProcessorException
       (''In aggregated query without GROUP BY, expression #2 of SELECT list '' @
        ''contains nonaggregated column '' @ [CHR 0x27] @ ''t.name'' @ [CHR 0x27])) \<and>
   applyGroupBy (specEvaluator (serverOf ''mydb'' []) []) specUtils
     (SelectQuery [] [SelectColumn (FunctionE ''count'' [Star None] False) ''count()'' None]
        None [] Null [] 0 0 False)
     init_processor = Inr (init_processor\<lparr>groupedRows := [(1, 0)]\<rparr>)"
proof (intro conjI)
  let ?E = "specEvaluator (serverOf ''mydb'' []) []"
  let ?cnt = "SelectColumn (FunctionE ''count'' [Star None] False) ''count()'' None"
  show "applyGroupBy ?E specUtils
     (SelectQuery [] [SelectColumn (ColumnRef None ''id'') [] None] None [] Null [] 0 0 False)
     init_processor = Inr init_processor"
    using groupBy_empty [of "SelectQuery [] [SelectColumn (ColumnRef None ''id'') [] None]
        None [] Null [] 0 0 False" ?E specUtils init_processor]
    by auto
  show "applyGroupBy ?E specUtils
     (SelectQuery [] [?cnt, SelectColumn (ColumnRef (Some ''t'') ''name'') [] None]
        None [] Null [] 0 0 False)
     init_processor =
     Inl (ProcessorException
       (''In aggregated query without GROUP BY, expression #2 of SELECT list '' @
        ''contains nonaggregated column '' @ [CHR 0x27] @ ''t.name'' @ [CHR 0x27]))"
    using groupBy_empty [of "SelectQuery []
        [?cnt, SelectColumn (ColumnRef (Some ''t'') ''name'') [] None]
        None [] Null [] 0 0 False" ?E specUtils init_processor]
    by (auto simp: less_Suc_eq show_nat.simps)
  show "applyGroupBy ?E specUtils (SelectQuery [] [?cnt] None [] Null [] 0 0 False)
     init_processor = Inr (init_processor\<lparr>groupedRows := [(1, 0)]\<rparr>)"
    using groupBy_empty [of "SelectQuery [] [?cnt] None [] Null [] 0 0 False"
        ?E specUtils init_processor]
    by (auto simp: init_processor_def)
qed

section \<open>The injected input row\<close>

lemma needsInputRow_iff:
  "needsInputRow cols \<longleftrightarrow> (\<exists>c \<in> set cols. computedExpression (sc_expr c))"
proof -
  have "\<And>c. computedExpression (sc_expr c) \<longleftrightarrow>
          sc_type c = ''function'' \<or> sc_type c = ''binary_expression'' \<or>
          sc_type c \<in> set [''number'', ''string'', ''boolean'', ''null''] \<or>
          sc_type c = ''case'' \<or> sc_type c = ''select''"
    subgoal for c by (cases "sc_expr c") (simp_all add: sc_type_def)
    done
  then show ?thesis
    unfolding needsInputRow_def list_ex_iff by blast
qed

lemma no_input_row:
  "\<forall>c \<in> set cols. \<exists>t x. sc_expr c = ColumnRef t x \<or> sc_expr c = Star t \<Longrightarrow>
   \<not> needsInputRow cols"
  by (auto simp: needsInputRow_iff)

lemma selectRow_short: "selectRow E q r g = Inr out \<Longrightarrow> length out \<le> 1"
  by (auto simp: selectRow_def split: sum.splits prod.splits)

lemma distinctRows_short: "length out \<le> 1 \<Longrightarrow> distinctRows keys [] out = out"
  by (cases out) (simp_all add: Let_def)

lemma select_empty_rows:
  assumes "this_rows s = []" "groupedRows s = []"
  shows "(case applySelectAndHaving E q s of Inl err \<Rightarrow> Inl err | Inr s' \<Rightarrow> Inr (this_rows s')) =
         (if needsInputRow (select_columns q) then selectRow E q (Some []) [] else Inr [])"
proof (cases "needsInputRow (select_columns q)")
  case True
  let ?s = "(assign_rows [[]] s)\<lparr>columns := columns (assign_rows [[]] s) @
              aliasKeys (select_columns q)\<rparr>"
  have a: "applySelectAndHaving E q s =
      (case selectRow E q (Some []) [] of
         Inl err \<Rightarrow> Inl err
       | Inr out \<Rightarrow> Inr (applyDistinct q (assign_rows out ?s)))"
    using True assms
    by (simp add: applySelectAndHaving_def injectRow_def Let_def split: sum.splits)
  show ?thesis
  proof (cases "selectRow E q (Some []) []")
    case (Inl err)
    with a True show ?thesis by simp
  next
    case (Inr out)
    then have "length out \<le> 1" by (rule selectRow_short)
    then have "this_rows (applyDistinct q (assign_rows out ?s)) = out"
      by (simp add: this_rows_applyDistinct distinctRows_short)
    with a Inr True show ?thesis by simp
  qed
next
  case False
  with assms show ?thesis
    by (simp add: applySelectAndHaving_def injectRow_def Let_def this_rows_applyDistinct)
qed

lemma select_ungrouped:
  assumes "groupedRows s = []"
  shows "(case applySelectAndHaving E q s of Inl err \<Rightarrow> Inl err | Inr s' \<Rightarrow> Inr (this_rows s')) =
         (case selectRows E q (this_rows (injectRow q s)) of
            Inl err \<Rightarrow> Inl err
          | Inr out \<Rightarrow>
              Inr (if is_distinct q \<and> out \<noteq> [] then distinctRows (obj_keys (hd out)) [] out
                   else out))"
  using assms injectRow_inv [of q s]
  by (simp add: applySelectAndHaving_def Let_def this_rows_applyDistinct split: sum.splits)

lemma select_grouped:
  assumes "groupedRows s \<noteq> []" "\<forall>(h, a) \<in> set (groupedRows s). a < fresh s"
  shows "(case applySelectAndHaving E q s of Inl err \<Rightarrow> Inl err | Inr s' \<Rightarrow> Inr (this_rows s')) =
         (case selectGroups E q (map (\<lambda>(h, a). heap s a) (groupedRows s)) of
            Inl err \<Rightarrow> Inl err
          | Inr out \<Rightarrow>
              Inr (if is_distinct q \<and> out \<noteq> [] then distinctRows (obj_keys (hd out)) [] out
                   else out))"
proof -
  let ?s = "(injectRow q s)\<lparr>columns := columns (injectRow q s) @ aliasKeys (select_columns q)\<rparr>"
  have gs: "groupedRows ?s = groupedRows s" using injectRow_inv by simp
  have "map (\<lambda>(h, a). heap ?s a) (groupedRows s) = map (\<lambda>(h, a). heap s a) (groupedRows s)"
  proof (rule map_cong [OF refl])
    fix x assume x: "x \<in> set (groupedRows s)"
    obtain k a where ka: "x = (k, a)" by (cases x)
    with x assms(2) have "a \<noteq> fresh s" by auto
    with injectRow_inv [of q s] ka
    show "(case x of (h, a) \<Rightarrow> heap ?s a) = (case x of (h, a) \<Rightarrow> heap s a)" by simp
  qed
  then have "selectGroups E q (map (\<lambda>(h, a). heap ?s a) (groupedRows s)) =
             selectGroups E q (map (\<lambda>(h, a). heap s a) (groupedRows s))"
    by (rule arg_cong)
  then have sel: "selectGroups E q (map (\<lambda>(h, a). heap ?s a) (groupedRows ?s)) =
                  selectGroups E q (map (\<lambda>(h, a). heap s a) (groupedRows s))"
    by (simp only: gs)
  define G where "G = selectGroups E q (map (\<lambda>(h, a). heap s a) (groupedRows s))"
  have A: "applySelectAndHaving E q s =
      (case G of Inl err \<Rightarrow> Inl err | Inr out \<Rightarrow> Inr (applyDistinct q (assign_rows out ?s)))"
    unfolding G_def sel [symmetric] using gs assms(1)
    by (simp add: applySelectAndHaving_def Let_def)
  show ?thesis
    unfolding A G_def [symmetric] by (cases G) (simp_all add: this_rows_applyDistinct)
qed

text \<open>
  C4. The first statement of the SELECT/HAVING stage makes the rows the one empty
  row exactly when they are empty and some SELECT column is a function, a binary
  expression, a literal, a CASE or a scalar sub-query; when every SELECT column is a
  column reference or a star it changes nothing. The stage then works on these rows:
  entered with no rows and no groups, it returns what the mapping and the HAVING
  check give for the one empty row when there is such a column, and no row, without
  a call of the evaluator, when there is none; entered with rows and no groups, it
  maps the rows it found. With groups, the stage goes through the groups, which are
  arrays made before, and returns the same with and without the injected row. So
  \<open>SELECT id FROM t HAVING id > 0\<close> on an empty table \<open>t\<close> returns no row, whatever the
  evaluator and the utilities are.
\<close>

theorem injected_row:
  "(this_rows (injectRow q s) =
      (if this_rows s = [] \<and> (\<exists>c \<in> set (select_columns q). computedExpression (sc_expr c))
       then [[]] else this_rows s)) \<and>
   ((\<forall>c \<in> set (select_columns q). \<exists>t x. sc_expr c = ColumnRef t x \<or> sc_expr c = Star t) \<longrightarrow>
      injectRow q s = s) \<and>
   (this_rows s = [] \<and> groupedRows s = [] \<longrightarrow>
      (case applySelectAndHaving E q s of Inl err \<Rightarrow> Inl err | Inr s' \<Rightarrow> Inr (this_rows s')) =
      (if \<exists>c \<in> set (select_columns q). computedExpression (sc_expr c)
       then selectRow E q (Some []) [] else Inr [])) \<and>
   (groupedRows s = [] \<longrightarrow>
      (case applySelectAndHaving E q s of Inl err \<Rightarrow> Inl err | Inr s' \<Rightarrow> Inr (this_rows s')) =
      (case selectRows E q
              (if this_rows s = [] \<and>
                  (\<exists>c \<in> set (select_columns q). computedExpression (sc_expr c))
               then [[]] else this_rows s) of
         Inl err \<Rightarrow> Inl err
       | Inr out \<Rightarrow>
           Inr (if is_distinct q \<and> out \<noteq> [] then distinctRows (obj_keys (hd out)) [] out
                else out))) \<and>
   (groupedRows s \<noteq> [] \<and> (\<forall>(h, a) \<in> set (groupedRows s). a < fresh s) \<longrightarrow>
      (case applySelectAndHaving E q s of Inl err \<Rightarrow> Inl err | Inr s' \<Rightarrow> Inr (this_rows s')) =
      (case selectGroups E q (map (\<lambda>(h, a). heap s a) (groupedRows s)) of
         Inl err \<Rightarrow> Inl err
       | Inr out \<Rightarrow>
           Inr (if is_distinct q \<and> out \<noteq> [] then distinctRows (obj_keys (hd out)) [] out
                else out))) \<and>
   (lookupTable srv None ''t'' = Inr tab \<and> trows tab = [] \<longrightarrow>
      process EC U srv ctx
        (SelectQuery [FromTable None ''t'' None None None]
           [SelectColumn (ColumnRef None ''id'') ''id'' None] None []
           (Defined (BinaryExpression ''>'' (ColumnRef None ''id'') (NumberE 0))) [] 0 0 False) =
      Inr [])"
proof (intro conjI impI)
  show i: "this_rows (injectRow q s) =
      (if this_rows s = [] \<and> (\<exists>c \<in> set (select_columns q). computedExpression (sc_expr c))
       then [[]] else this_rows s)"
    by (simp add: injectRow_def needsInputRow_iff)
  {
    assume "groupedRows s = []"
    from select_ungrouped [OF this, of E q]
    show "(case applySelectAndHaving E q s of
             Inl err \<Rightarrow> Inl err | Inr s' \<Rightarrow> Inr (this_rows s')) =
      (case selectRows E q
              (if this_rows s = [] \<and>
                  (\<exists>c \<in> set (select_columns q). computedExpression (sc_expr c))
               then [[]] else this_rows s) of
         Inl err \<Rightarrow> Inl err
       | Inr out \<Rightarrow>
           Inr (if is_distinct q \<and> out \<noteq> [] then distinctRows (obj_keys (hd out)) [] out
                else out))"
      by (simp only: i)
  }
next
  assume "\<forall>c \<in> set (select_columns q). \<exists>t x. sc_expr c = ColumnRef t x \<or> sc_expr c = Star t"
  then show "injectRow q s = s"
    using no_input_row [of "select_columns q"] by (simp add: injectRow_def)
next
  assume "this_rows s = [] \<and> groupedRows s = []"
  then show "(case applySelectAndHaving E q s of
                Inl err \<Rightarrow> Inl err | Inr s' \<Rightarrow> Inr (this_rows s')) =
      (if \<exists>c \<in> set (select_columns q). computedExpression (sc_expr c)
       then selectRow E q (Some []) [] else Inr [])"
    using select_empty_rows [of s E q] by (simp add: needsInputRow_iff)
next
  assume "groupedRows s \<noteq> [] \<and> (\<forall>(h, a) \<in> set (groupedRows s). a < fresh s)"
  then show "(case applySelectAndHaving E q s of
                Inl err \<Rightarrow> Inl err | Inr s' \<Rightarrow> Inr (this_rows s')) =
      (case selectGroups E q (map (\<lambda>(h, a). heap s a) (groupedRows s)) of
         Inl err \<Rightarrow> Inl err
       | Inr out \<Rightarrow>
           Inr (if is_distinct q \<and> out \<noteq> [] then distinctRows (obj_keys (hd out)) [] out
                else out))"
    using select_grouped [of s E q] by simp
next
  assume "lookupTable srv None ''t'' = Inr tab \<and> trows tab = []"
  then show "process EC U srv ctx
        (SelectQuery [FromTable None ''t'' None None None]
           [SelectColumn (ColumnRef None ''id'') ''id'' None] None []
           (Defined (BinaryExpression ''>'' (ColumnRef None ''id'') (NumberE 0))) [] 0 0 False) =
      Inr []"
    by (simp add: combineFrom_def afterFrom_def applyWhere_def applyGroupBy_def
        hasAggregateFunction_def isAggregateColumn_def sc_type_def applyOrderBy_def
        applySelectAndHaving_def injectRow_def needsInputRow_def applyDistinct_def
        applyLimit_def init_processor_def Let_def)
qed

text \<open>
  Runs of the stage. On a processor without rows and groups \<open>SELECT 1 AS one\<close> gets
  the empty row and gives one output row, and \<open>SELECT id ... HAVING id > 0\<close> gets none
  and gives no row. On a processor with one row, \<open>SELECT 1 AS one\<close> gives one output
  row, for the row it found. On a processor whose one group is the empty rows array,
  \<open>SELECT count(*)\<close> gives the one row of the group. The two queries on an empty table
  give the same through \<open>process\<close>.
\<close>

theorem injected_row_witness:
  "this_rows (injectRow
      (SelectQuery [] [SelectColumn (FunctionE ''database'' [] False) ''database()'' None]
         None [] Null [] 0 0 False) init_processor) = [[]] \<and>
   injectRow
      (SelectQuery [FromTable None ''t'' None None None]
         [SelectColumn (ColumnRef None ''id'') ''id'' None] None []
         (Defined (BinaryExpression ''>'' (ColumnRef None ''id'') (NumberE 0))) [] 0 0 False)
      init_processor = init_processor \<and>
   (case applySelectAndHaving (specEvaluator (serverOf ''mydb'' []) [])
           (SelectQuery [] [SelectColumn (NumberE 1) ''1'' (Some ''one'')]
              None [] Null [] 0 0 False) init_processor of
      Inl err \<Rightarrow> Inl err | Inr s' \<Rightarrow> Inr (this_rows s')) = Inr [[(''one'', VNumber 1)]] \<and>
   (case applySelectAndHaving (specEvaluator (serverOf ''mydb'' []) [])
           (SelectQuery [FromTable None ''t'' None None None]
              [SelectColumn (ColumnRef None ''id'') ''id'' None] None []
              (Defined (BinaryExpression ''>'' (ColumnRef None ''id'') (NumberE 0))) [] 0 0 False)
           init_processor of
      Inl err \<Rightarrow> Inl err | Inr s' \<Rightarrow> Inr (this_rows s')) = Inr [] \<and>
   (case applySelectAndHaving (specEvaluator (serverOf ''mydb'' []) [])
           (SelectQuery [] [SelectColumn (NumberE 1) ''1'' (Some ''one'')]
              None [] Null [] 0 0 False)
           (assign_rows [[(''t::id'', VNumber 7)]] init_processor) of
      Inl err \<Rightarrow> Inl err | Inr s' \<Rightarrow> Inr (this_rows s')) = Inr [[(''one'', VNumber 1)]] \<and>
   (case applySelectAndHaving (specEvaluator (serverOf ''mydb'' []) [])
           (SelectQuery [] [SelectColumn (FunctionE ''count'' [Star None] False) ''count()'' None]
              None [] Null [] 0 0 False)
           (init_processor\<lparr>groupedRows := [(1, 0)]\<rparr>) of
      Inl err \<Rightarrow> Inl err | Inr s' \<Rightarrow> Inr (this_rows s')) = Inr [[(''count()'', VNumber 0)]] \<and>
   process specEvaluator specUtils
      (serverOf ''mydb''
         [(''t'', \<lparr>tcolumns = [integerColumnOf ''id'' True None False 0 100 (\<lambda>code. code)],
                   trows = []\<rparr>)]) []
      (SelectQuery [FromTable None ''t'' None None None]
         [SelectColumn (ColumnRef None ''id'') ''id'' None] None []
         (Defined (BinaryExpression ''>'' (ColumnRef None ''id'') (NumberE 0))) [] 0 0 False) =
   Inr [] \<and>
   process specEvaluator specUtils
      (serverOf ''mydb''
         [(''t'', \<lparr>tcolumns = [integerColumnOf ''id'' True None False 0 100 (\<lambda>code. code)],
                   trows = []\<rparr>)]) []
      (SelectQuery [FromTable None ''t'' None None None]
         [SelectColumn (NumberE 1) ''1'' (Some ''one'')] None [] Null [] 0 0 False) =
   Inr [[(''one'', VNumber 1)]]"
proof (intro conjI)
  let ?E = "specEvaluator (serverOf ''mydb'' []) []"
  let ?having = "SelectQuery [FromTable None ''t'' None None None]
         [SelectColumn (ColumnRef None ''id'') ''id'' None] None []
         (Defined (BinaryExpression ''>'' (ColumnRef None ''id'') (NumberE 0))) [] 0 0 False"
  let ?one = "SelectQuery [] [SelectColumn (NumberE 1) ''1'' (Some ''one'')]
              None [] Null [] 0 0 False"
  let ?count = "SelectQuery []
              [SelectColumn (FunctionE ''count'' [Star None] False) ''count()'' None]
              None [] Null [] 0 0 False"
  let ?srv = "serverOf ''mydb''
         [(''t'', \<lparr>tcolumns = [integerColumnOf ''id'' True None False 0 100 (\<lambda>code. code)],
                   trows = []\<rparr>)]"
  show "this_rows (injectRow
      (SelectQuery [] [SelectColumn (FunctionE ''database'' [] False) ''database()'' None]
         None [] Null [] 0 0 False) init_processor) = [[]]"
    using injected_row [of "SelectQuery []
        [SelectColumn (FunctionE ''database'' [] False) ''database()'' None]
        None [] Null [] 0 0 False" init_processor]
    by (simp add: this_rows_def init_processor_def)
  show "injectRow ?having init_processor = init_processor"
    using injected_row [of ?having init_processor]
    by simp
  show "(case applySelectAndHaving ?E ?one init_processor of
      Inl err \<Rightarrow> Inl err | Inr s' \<Rightarrow> Inr (this_rows s')) = Inr [[(''one'', VNumber 1)]]"
    using injected_row [of ?one init_processor ?E]
    by (simp add: this_rows_def init_processor_def selectRow_def mapRow_def checkIfKeep_def
        specEvaluator_def str_or_def sc_type_def keyBefore_def arrayIndex_def)
  show "(case applySelectAndHaving ?E ?having init_processor of
      Inl err \<Rightarrow> Inl err | Inr s' \<Rightarrow> Inr (this_rows s')) = Inr []"
    using injected_row [of ?having init_processor ?E]
    by (simp add: this_rows_def init_processor_def)
  show "(case applySelectAndHaving ?E ?one
           (assign_rows [[(''t::id'', VNumber 7)]] init_processor) of
      Inl err \<Rightarrow> Inl err | Inr s' \<Rightarrow> Inr (this_rows s')) = Inr [[(''one'', VNumber 1)]]"
    using injected_row [of ?one "assign_rows [[(''t::id'', VNumber 7)]] init_processor" ?E]
    by (simp add: init_processor_def selectRow_def mapRow_def checkIfKeep_def
        specEvaluator_def str_or_def sc_type_def keyBefore_def arrayIndex_def)
  show "(case applySelectAndHaving ?E ?count (init_processor\<lparr>groupedRows := [(1, 0)]\<rparr>) of
      Inl err \<Rightarrow> Inl err | Inr s' \<Rightarrow> Inr (this_rows s')) = Inr [[(''count()'', VNumber 0)]]"
    using injected_row [of ?count "init_processor\<lparr>groupedRows := [(1, 0)]\<rparr>" ?E]
    by (simp add: init_processor_def selectRow_def mapRow_def checkIfKeep_def firstRawRow_def
        specEvaluator_def str_or_def sc_type_def lower_char_def keyBefore_def arrayIndex_def)
  show "process specEvaluator specUtils ?srv [] ?having = Inr []"
    using injected_row [of _ _ _ ?srv
        "\<lparr>tcolumns = [integerColumnOf ''id'' True None False 0 100 (\<lambda>code. code)],
          trows = []\<rparr>" specEvaluator specUtils "[]"]
    by (simp add: serverOf_def)
  show "process specEvaluator specUtils ?srv []
      (SelectQuery [FromTable None ''t'' None None None]
         [SelectColumn (NumberE 1) ''1'' (Some ''one'')] None [] Null [] 0 0 False) =
   Inr [[(''one'', VNumber 1)]]"
    by (simp add: combineFrom_def afterFrom_def applyWhere_def applyGroupBy_def
        hasAggregateFunction_def isAggregateColumn_def sc_type_def applyOrderBy_def
        applySelectAndHaving_def injectRow_def needsInputRow_def applyDistinct_def
        applyLimit_def init_processor_def Let_def this_rows_def aliasKeys_def
        selectRow_def mapRow_def checkIfKeep_def specEvaluator_def serverOf_def
        str_or_def integerColumnOf_def keyBefore_def arrayIndex_def)
qed

section \<open>LIMIT\<close>

lemma fromIndex_enumerate:
  "map snd (filter (\<lambda>(i, r). off \<le> int i) (enumerate n rs)) = drop (nat off - n) rs"
proof (induction rs arbitrary: n)
  case Nil
  then show ?case by simp
next
  case (Cons r rs)
  show ?case
  proof (cases "off \<le> int n")
    case True
    then have "nat off - n = 0" "nat off - Suc n = 0" by linarith+
    with True Cons [of "Suc n"] show ?thesis by simp
  next
    case False
    then have "nat off - n = Suc (nat off - Suc n)" by linarith
    with False Cons [of "Suc n"] show ?thesis by simp
  qed
qed

lemma fromIndex_drop: "fromIndex off rs = drop (nat off) rs"
  using fromIndex_enumerate [of off 0 rs] by (simp add: fromIndex_def)

lemma applyLimit_rows:
  "0 \<le> limit q \<Longrightarrow>
   \<exists>s'. applyLimit q s = Inr s' \<and>
        this_rows s' =
          (if limit q = 0 then drop (nat (offset q)) (this_rows s)
           else take (nat (limit q)) (drop (nat (offset q)) (this_rows s)))"
  by (auto simp: applyLimit_def Let_def fromIndex_drop)

text \<open>
  C7. For a limit that is not negative the LIMIT stage succeeds; it drops the first
  \<open>offset\<close> rows and, when the limit is not zero, keeps at most \<open>limit\<close> of the rest.
  So with a positive limit the stage, and with it every run of \<open>process\<close> that
  returns, gives at most \<open>limit\<close> rows; a row count is never negative.
\<close>

theorem applyLimit_bound:
  "(0 \<le> limit q \<longrightarrow>
      (\<exists>s'. applyLimit q s = Inr s' \<and>
         this_rows s' =
           (if limit q = 0 then drop (nat (offset q)) (this_rows s)
            else take (nat (limit q)) (drop (nat (offset q)) (this_rows s))))) \<and>
   (\<forall>s'. 0 < limit q \<longrightarrow> applyLimit q s = Inr s' \<longrightarrow> int (length (this_rows s')) \<le> limit q) \<and>
   (\<forall>out. process EC U srv ctx q = Inr out \<longrightarrow>
      (0 < limit q \<longrightarrow> int (length out) \<le> limit q) \<and> 0 \<le> int (length out))"
proof (intro conjI allI impI)
  assume "0 \<le> limit q"
  then show "\<exists>s'. applyLimit q s = Inr s' \<and>
         this_rows s' =
           (if limit q = 0 then drop (nat (offset q)) (this_rows s)
            else take (nat (limit q)) (drop (nat (offset q)) (this_rows s)))"
    by (rule applyLimit_rows)
next
  fix s' assume "0 < limit q" "applyLimit q s = Inr s'"
  then show "int (length (this_rows s')) \<le> limit q"
    using applyLimit_rows [of q s] by auto
next
  fix out assume "process EC U srv ctx q = Inr out" and pos: "0 < limit q"
  then obtain s4 s5 where "applyLimit q s4 = Inr s5" "out = this_rows s5"
    by (auto simp: process_unfold afterFrom_def split: sum.splits)
  with pos show "int (length out) \<le> limit q"
    using applyLimit_rows [of q s4] by auto
next
  fix out :: "row list"
  show "0 \<le> int (length out)" by simp
qed

theorem applyLimit_bound_witness:
  "(\<exists>s'. applyLimit (SelectQuery [] [] None [] Null [] 2 1 False)
           (assign_rows [[(''id'', VNumber 1)], [(''id'', VNumber 2)], [(''id'', VNumber 3)],
              [(''id'', VNumber 4)]] init_processor) = Inr s' \<and>
         this_rows s' = [[(''id'', VNumber 2)], [(''id'', VNumber 3)]] \<and>
         int (length (this_rows s')) \<le> 2) \<and>
   (\<exists>out. process specEvaluator specUtils (serverOf ''mydb'' []) []
       (SelectQuery [] [SelectColumn (FunctionE ''database'' [] False) ''database()'' None]
          None [] Null [] 1 0 False) = Inr out \<and>
       int (length out) \<le> 1)"
proof (intro conjI)
  let ?q = "SelectQuery [] [] None [] Null [] 2 1 False"
  let ?s = "assign_rows [[(''id'', VNumber 1)], [(''id'', VNumber 2)], [(''id'', VNumber 3)],
              [(''id'', VNumber 4)]] init_processor"
  show "\<exists>s'. applyLimit ?q ?s = Inr s' \<and>
         this_rows s' = [[(''id'', VNumber 2)], [(''id'', VNumber 3)]] \<and>
         int (length (this_rows s')) \<le> 2"
    using applyLimit_bound [of ?q ?s specEvaluator specUtils "serverOf ''mydb'' []" "[]"]
    by auto
  let ?p = "SelectQuery [] [SelectColumn (FunctionE ''database'' [] False) ''database()'' None]
          None [] Null [] 1 0 False"
  have "process specEvaluator specUtils (serverOf ''mydb'' []) [] ?p =
          Inr [[(''database()'', VString ''mydb'')]]"
    by (simp add: afterFrom_def applyWhere_def applyGroupBy_def
        hasAggregateFunction_def isAggregateColumn_def sc_type_def applyOrderBy_def
        applySelectAndHaving_def injectRow_def needsInputRow_def applyDistinct_def
        applyLimit_def init_processor_def Let_def this_rows_def aliasKeys_def
        selectRow_def mapRow_def checkIfKeep_def specEvaluator_def serverOf_def
        lower_char_def str_or_def)
  then show "\<exists>out. process specEvaluator specUtils (serverOf ''mydb'' []) [] ?p = Inr out \<and>
       int (length out) \<le> 1"
    using applyLimit_bound [of ?p _ specEvaluator specUtils "serverOf ''mydb'' []" "[]"]
    by auto
qed

section \<open>The two forms of the LIMIT clause\<close>

text \<open>
  C8. \<open>LIMIT a, b\<close> (two values, separator \<open>,\<close>) and \<open>LIMIT b OFFSET a\<close> (two values,
  separator \<open>offset\<close>) give the same pair \<open>limit = b\<close>, \<open>offset = a\<close>; two trees that differ
  in nothing else give the same query object, and the processor, a function of that
  object, runs both alike.
\<close>

theorem limit_forms:
  "limitOfAst (Some \<lparr>seperator = '','', limit_values = [a, b]\<rparr>) = (b, a) \<and>
   limitOfAst (Some \<lparr>seperator = ''offset'', limit_values = [b, a]\<rparr>) = (b, a) \<and>
   fromAst (ast\<lparr>ast_limit := Some \<lparr>seperator = '','', limit_values = [a, b]\<rparr>\<rparr>) =
   fromAst (ast\<lparr>ast_limit := Some \<lparr>seperator = ''offset'', limit_values = [b, a]\<rparr>\<rparr>) \<and>
   (\<forall>q. fromAst (ast\<lparr>ast_limit := Some \<lparr>seperator = '','', limit_values = [a, b]\<rparr>\<rparr>) = Inr q
        \<longrightarrow> limit q = b \<and> offset q = a) \<and>
   (case fromAst (ast\<lparr>ast_limit := Some \<lparr>seperator = '','', limit_values = [a, b]\<rparr>\<rparr>) of
      Inl err \<Rightarrow> Inl err | Inr q \<Rightarrow> process EC U srv ctx q) =
   (case fromAst (ast\<lparr>ast_limit := Some \<lparr>seperator = ''offset'', limit_values = [b, a]\<rparr>\<rparr>) of
      Inl err \<Rightarrow> Inl err | Inr q \<Rightarrow> process EC U srv ctx q)"
  by (auto simp: limitOfAst_def fromAst_def Let_def split: sum.splits)

theorem limit_forms_witness:
  "(\<exists>q. fromAst \<lparr>ast_from = [\<lparr>af_db = None, af_table = ''users'', af_as = None,
                               af_join = None, af_on = None\<rparr>],
                  ast_columns = [AstAll], ast_where = None, ast_groupby = [],
                  ast_orderby = [],
                  ast_limit = Some \<lparr>seperator = '','', limit_values = [5, 1]\<rparr>\<rparr> = Inr q \<and>
        limit q = 1 \<and> offset q = 5)"
proof -
  let ?ast = "\<lparr>ast_from = [\<lparr>af_db = None, af_table = ''users'', af_as = None,
                               af_join = None, af_on = None\<rparr>],
                  ast_columns = [AstAll], ast_where = None, ast_groupby = [],
                  ast_orderby = [], ast_limit = None\<rparr>"
  have "\<exists>q. fromAst (?ast\<lparr>ast_limit := Some \<lparr>seperator = '','', limit_values = [5, 1]\<rparr>\<rparr>) = Inr q"
    by (simp add: fromAst_def Let_def)
  then show ?thesis
    using limit_forms [of 5 1 ?ast] by auto
qed

section \<open>LEFT JOIN\<close>

lemma map_of_obj_set: "map_of (obj_set r k v) = (map_of r)(k \<mapsto> v)"
  by (induction r) auto











section \<open>SELECT database()\<close>

lemma fromAst_selectDatabase:
  "fromAst selectDatabaseAst =
     Inr (SelectQuery [] [SelectColumn (FunctionE ''database'' [] False) ''database()'' None]
            None [] Undefined [] 0 0 False)"
  by (simp add: fromAst_def selectDatabaseAst_def tableAliasesOf_def limitOfAst_def)

lemma process_selectDatabase:
  assumes "evaluateExpression (EC srv ctx) (FunctionE ''database'' [] False) (Some []) (Some [])
             = Inr v"
  shows "process EC U srv ctx
           (SelectQuery [] [SelectColumn (FunctionE ''database'' [] False) ''database()'' None]
              None [] Null [] 0 0 False) = Inr [[(''database()'', v)]]"
  using assms
  by (simp add: afterFrom_def applyWhere_def applyGroupBy_def
      hasAggregateFunction_def isAggregateColumn_def sc_type_def applyOrderBy_def
      applySelectAndHaving_def injectRow_def needsInputRow_def applyDistinct_def
      applyLimit_def init_processor_def Let_def this_rows_def aliasKeys_def
      selectRow_def mapRow_def checkIfKeep_def str_or_def)

lemma process_selectDatabase_undefined:
  assumes "evaluateExpression (EC srv ctx) (FunctionE ''database'' [] False) (Some []) (Some [])
             = Inr v"
  shows "process EC U srv ctx
           (SelectQuery [] [SelectColumn (FunctionE ''database'' [] False) ''database()'' None]
              None [] Undefined [] 0 0 False) =
         (case evaluateUndefined (EC srv ctx) (Some []) (Some []) of
            Inl err \<Rightarrow> Inl (in_clause ''having clause'' err)
          | Inr w \<Rightarrow> Inr (if truthy w then [[(''database()'', v)]] else []))"
  using assms
  by (simp add: afterFrom_def applyWhere_def applyGroupBy_def
      hasAggregateFunction_def isAggregateColumn_def sc_type_def applyOrderBy_def
      applySelectAndHaving_def injectRow_def needsInputRow_def applyDistinct_def
      applyLimit_def init_processor_def Let_def this_rows_def aliasKeys_def
      selectRow_def mapRow_def checkIfKeep_def str_or_def split: sum.splits)

text \<open>
  C6, as the code has it. \<open>fromAst\<close> gives a function column the column text
  \<open>name()\<close>, and \<open>mapRow\<close> keys the output by the alias or else by that text. With an
  evaluator that gives \<open>database()\<close> the name of the current database, the processor
  returns for the query object of \<open>SELECT database()\<close>, with \<open>having\<close> null, exactly one
  row, whose one key is \<open>database()\<close>. The object that \<open>fromAst\<close> itself builds has no
  \<open>having\<close> property: \<open>checkIfKeep\<close> then hands \<open>undefined\<close> to the evaluator, and the
  processor returns the same row when that call gives a truthy value, no row when
  it gives a falsy one, and the exception of the having clause when it raises.
\<close>

theorem select_database:
  assumes "evaluateExpression (EC srv ctx) (FunctionE ''database'' [] False) (Some []) (Some [])
             = Inr (VString (currentDatabase srv))"
  shows "\<exists>q. fromAst selectDatabaseAst = Inr q \<and>
           select_columns q =
             [SelectColumn (FunctionE ''database'' [] False) ''database()'' None] \<and>
           having q = Undefined \<and>
           process EC U srv ctx (havingNull q) =
             Inr [[(''database()'', VString (currentDatabase srv))]] \<and>
           process EC U srv ctx q =
             (case evaluateUndefined (EC srv ctx) (Some []) (Some []) of
                Inl err \<Rightarrow> Inl (in_clause ''having clause'' err)
              | Inr w \<Rightarrow>
                  Inr (if truthy w then [[(''database()'', VString (currentDatabase srv))]]
                       else []))"
  using assms process_selectDatabase [of EC srv ctx "VString (currentDatabase srv)" U]
    process_selectDatabase_undefined [of EC srv ctx "VString (currentDatabase srv)" U]
  by (simp add: fromAst_selectDatabase havingNull_def)

theorem select_database_witness:
  "\<exists>q. fromAst selectDatabaseAst = Inr q \<and>
     process specEvaluator specUtils (serverOf ''mydb'' []) [] (havingNull q) =
       Inr [[(''database()'', VString ''mydb'')]] \<and>
     process specEvaluator specUtils (serverOf ''mydb'' []) [] q =
       Inl (JsError ''Cannot read properties of undefined'')"
  using select_database [of specEvaluator "serverOf ''mydb'' []" "[]" specUtils]
  by (auto simp: specEvaluator_def serverOf_def lower_char_def)

text \<open>
  C6, as the claim states it: the key of the one output row would be \<open>database\<close>.
  It is \<open>database()\<close> for the query object with \<open>having\<close> null, and the object that
  \<open>fromAst\<close> builds does not give the claimed row either.
\<close>

theorem select_database_counterexample:
  "(case fromAst selectDatabaseAst of
      Inl err \<Rightarrow> Inl err
    | Inr q \<Rightarrow> process specEvaluator specUtils (serverOf ''mydb'' []) [] (havingNull q)) =
   Inr [[(''database()'', VString ''mydb'')]] \<and>
   (case fromAst selectDatabaseAst of
      Inl err \<Rightarrow> Inl err
    | Inr q \<Rightarrow> process specEvaluator specUtils (serverOf ''mydb'' []) [] (havingNull q)) \<noteq>
   Inr [[(''database'', VString ''mydb'')]] \<and>
   (case fromAst selectDatabaseAst of
      Inl err \<Rightarrow> Inl err
    | Inr q \<Rightarrow> process specEvaluator specUtils (serverOf ''mydb'' []) [] q) \<noteq>
   Inr [[(''database'', VString ''mydb'')]]"
proof -
  have e: "evaluateExpression (specEvaluator (serverOf ''mydb'' []) [])
          (FunctionE ''database'' [] False) (Some []) (Some []) = Inr (VString ''mydb'')"
    by (simp add: specEvaluator_def serverOf_def lower_char_def)
  have u: "evaluateUndefined (specEvaluator (serverOf ''mydb'' []) []) (Some []) (Some []) =
          Inl (JsError ''Cannot read properties of undefined'')"
    by (simp add: specEvaluator_def)
  from e process_selectDatabase [of specEvaluator "serverOf ''mydb'' []" "[]"
      "VString ''mydb''" specUtils]
    process_selectDatabase_undefined [of specEvaluator "serverOf ''mydb'' []" "[]"
      "VString ''mydb''" specUtils]
  show ?thesis
    by (simp add: fromAst_selectDatabase havingNull_def u)
qed

section \<open>ORDER BY in grouped mode\<close>

lemma combineFrom_inv:
  "combineFrom E i join cond rs cols s = Inr s' \<Longrightarrow>
   groupedRows s' = groupedRows s \<and> rows s' < fresh s'"
  by (auto simp: combineFrom_def Let_def split: sum.splits if_splits)

lemma applyFrom_Cons_Inr:
  "applyFrom EC U srv ctx (f # fs) i s = Inr s' \<Longrightarrow>
   \<exists>rs cols s1. combineFrom (EC srv ctx) i (f_join f) (f_on f) rs cols s = Inr s1 \<and>
      applyFrom EC U srv ctx fs (Suc i) s1 = Inr s'"
  by (cases f) (auto simp: Let_def split: sum.splits if_splits)

lemma applyFrom_inv:
  "applyFrom EC U srv ctx fs i s = Inr s' \<Longrightarrow> rows s < fresh s \<Longrightarrow>
   groupedRows s' = groupedRows s \<and> rows s' < fresh s'"
proof (induction fs arbitrary: i s)
  case Nil
  then show ?case by simp
next
  case (Cons f fs)
  from applyFrom_Cons_Inr [OF Cons.prems(1)] obtain rs cols s1 where
    c: "combineFrom (EC srv ctx) i (f_join f) (f_on f) rs cols s = Inr s1"
    and r: "applyFrom EC U srv ctx fs (Suc i) s1 = Inr s'"
    by blast
  from combineFrom_inv [OF c] Cons.IH [OF r] show ?case by simp
qed

lemma applyWhere_inv:
  "applyWhere E q s = Inr s' \<Longrightarrow> rows s < fresh s \<Longrightarrow>
   groupedRows s' = groupedRows s \<and> rows s' < fresh s'"
  by (auto simp: applyWhere_def split: option.splits sum.splits)

lemma set_map_set: "set (map_set m k v) \<subseteq> insert (k, v) (set m)"
  by (induction m) (auto split: if_splits)

lemma groupRows_inv:
  "groupRows E U gb rs s = Inr s' \<Longrightarrow>
   rows s' = rows s \<and> fresh s \<le> fresh s' \<and>
   (\<forall>(h, a) \<in> set (groupedRows s').
      (h, a) \<in> set (groupedRows s) \<or> (fresh s \<le> a \<and> a < fresh s'))"
proof (induction rs arbitrary: s)
  case Nil
  then show ?case by auto
next
  case (Cons r rs)
  from Cons.prems obtain vs where
    vs: "evaluateAll (\<lambda>c. evaluateExpression E c (Some r) None) gb = Inr vs"
    by (auto split: sum.splits)
  define h where "h = hashCode U (js_join ''::'' vs)"
  define old where "old = (case map_of (groupedRows s) h of None \<Rightarrow> [] | Some a \<Rightarrow> heap s a)"
  define s1 where "s1 = s\<lparr>heap := (heap s)(fresh s := old @ [r]), fresh := Suc (fresh s),
                        groupedRows := map_set (groupedRows s) h (fresh s)\<rparr>"
  from Cons.prems vs have r: "groupRows E U gb rs s1 = Inr s'"
    by (simp add: Let_def new_array_def h_def old_def s1_def)
  from Cons.IH [OF r] have ih: "rows s' = rows s1" "fresh s1 \<le> fresh s'"
    "\<forall>(h, a) \<in> set (groupedRows s').
        (h, a) \<in> set (groupedRows s1) \<or> (fresh s1 \<le> a \<and> a < fresh s')"
    by auto
  have g1: "set (groupedRows s1) \<subseteq> insert (h, fresh s) (set (groupedRows s))"
    using set_map_set [of "groupedRows s" h "fresh s"] by (simp add: s1_def)
  have f1: "fresh s1 = Suc (fresh s)" "rows s1 = rows s" by (simp_all add: s1_def)
  show ?case
  proof (intro conjI ballI)
    show "rows s' = rows s" using ih f1 by simp
    show "fresh s \<le> fresh s'" using ih f1 by simp
    fix x assume x: "x \<in> set (groupedRows s')"
    obtain k a where ka: "x = (k, a)" by (cases x)
    with x ih(3) have "(k, a) \<in> set (groupedRows s1) \<or> (fresh s1 \<le> a \<and> a < fresh s')"
      by auto
    with g1 f1 ih(2) have "(k, a) \<in> set (groupedRows s) \<or> (fresh s \<le> a \<and> a < fresh s')"
      by auto
    with ka show "case x of (h, a) \<Rightarrow>
        (h, a) \<in> set (groupedRows s) \<or> (fresh s \<le> a \<and> a < fresh s')"
      by simp
  qed
qed

lemma applyGroupBy_inv:
  assumes "groupBy q \<noteq> []" "applyGroupBy E U q s = Inr s'" "groupedRows s = []"
    "rows s < fresh s"
  shows "\<forall>(h, a) \<in> set (groupedRows s'). rows s' < a \<and> a < fresh s'"
proof -
  from assms(1,2) have "groupRows E U (groupBy q) (this_rows s) s = Inr s'"
    by (auto simp: applyGroupBy_def split: sum.splits)
  from groupRows_inv [OF this] assms(3,4) show ?thesis by fastforce
qed

lemma applyLimit_obs:
  "this_rows s = this_rows t \<Longrightarrow>
   (case applyLimit q s of Inl err \<Rightarrow> Inl err | Inr s5 \<Rightarrow> Inr (this_rows s5)) =
   (case applyLimit q t of Inl err \<Rightarrow> Inl err | Inr s5 \<Rightarrow> Inr (this_rows s5))"
  by (simp add: applyLimit_def Let_def)

lemma afterOrderBy_groups:
  assumes g: "groupedRows s = groupedRows t" "groupedRows s \<noteq> []"
    and h: "\<forall>(k, a) \<in> set (groupedRows s). heap s a = heap t a \<and> a < fresh s \<and> a < fresh t"
  shows "afterOrderBy E q s = afterOrderBy E q t"
proof -
  let ?s = "(injectRow q s)\<lparr>columns := columns (injectRow q s) @ aliasKeys (select_columns q)\<rparr>"
  let ?t = "(injectRow q t)\<lparr>columns := columns (injectRow q t) @ aliasKeys (select_columns q)\<rparr>"
  have gs: "groupedRows ?s = groupedRows s" "groupedRows ?t = groupedRows s"
    using g injectRow_inv by simp_all
  have "map (\<lambda>(k, a). heap ?s a) (groupedRows s) = map (\<lambda>(k, a). heap ?t a) (groupedRows s)"
  proof (rule map_cong [OF refl])
    fix x assume x: "x \<in> set (groupedRows s)"
    obtain k a where ka: "x = (k, a)" by (cases x)
    with x h have "heap s a = heap t a" "a \<noteq> fresh s" "a \<noteq> fresh t" by auto
    with injectRow_inv [of q s] injectRow_inv [of q t] ka
    show "(case x of (k, a) \<Rightarrow> heap ?s a) = (case x of (k, a) \<Rightarrow> heap ?t a)" by simp
  qed
  then have "selectGroups E q (map (\<lambda>(k, a). heap ?s a) (groupedRows s)) =
             selectGroups E q (map (\<lambda>(k, a). heap ?t a) (groupedRows s))"
    by (rule arg_cong)
  then have sel: "selectGroups E q (map (\<lambda>(k, a). heap ?s a) (groupedRows ?s)) =
                  selectGroups E q (map (\<lambda>(k, a). heap ?t a) (groupedRows ?t))"
    by (simp only: gs)
  define G where "G = selectGroups E q (map (\<lambda>(k, a). heap ?t a) (groupedRows ?t))"
  have A: "applySelectAndHaving E q s =
      (case G of Inl err \<Rightarrow> Inl err | Inr out \<Rightarrow> Inr (applyDistinct q (assign_rows out ?s)))"
    unfolding G_def sel [symmetric] using gs g
    by (simp add: applySelectAndHaving_def Let_def)
  have B: "applySelectAndHaving E q t =
      (case G of Inl err \<Rightarrow> Inl err | Inr out \<Rightarrow> Inr (applyDistinct q (assign_rows out ?t)))"
    unfolding G_def using gs g
    by (simp add: applySelectAndHaving_def Let_def)
  have lim: "(case applyLimit q (applyDistinct q (assign_rows out ?s)) of
                Inl err \<Rightarrow> Inl err | Inr s5 \<Rightarrow> Inr (this_rows s5)) =
             (case applyLimit q (applyDistinct q (assign_rows out ?t)) of
                Inl err \<Rightarrow> Inl err | Inr s5 \<Rightarrow> Inr (this_rows s5))" for out
    by (rule applyLimit_obs) (simp add: this_rows_applyDistinct)
  show ?thesis
    unfolding afterOrderBy_def A B by (cases G) (simp_all add: lim)
qed

lemma withoutOrderBy_fields [simp]:
  "from_list (withoutOrderBy q) = from_list q"
  "select_columns (withoutOrderBy q) = select_columns q"
  "where_expr (withoutOrderBy q) = where_expr q"
  "groupBy (withoutOrderBy q) = groupBy q"
  "having (withoutOrderBy q) = having q"
  "orderBy (withoutOrderBy q) = []"
  "limit (withoutOrderBy q) = limit q"
  "offset (withoutOrderBy q) = offset q"
  "is_distinct (withoutOrderBy q) = is_distinct q"
  by (simp_all add: withoutOrderBy_def)

lemma withoutOrderBy_stages:
  "applyWhere E (withoutOrderBy q) s = applyWhere E q s"
  "applyGroupBy E U (withoutOrderBy q) s = applyGroupBy E U q s"
  "applyOrderBy E U (withoutOrderBy q) s = Inr s"
  "applyLimit (withoutOrderBy q) s = applyLimit q s"
  "injectRow (withoutOrderBy q) s = injectRow q s"
  "applyDistinct (withoutOrderBy q) s = applyDistinct q s"
  "selectRow E (withoutOrderBy q) r g = selectRow E q r g"
  by (simp_all add: applyWhere_def applyGroupBy_def applyOrderBy_def
      applyLimit_def injectRow_def applyDistinct_def selectRow_def mapRow_def checkIfKeep_def
      Let_def cong: sum.case_cong option.case_cong if_cong)

lemma withoutOrderBy_selectRows:
  "selectRows E (withoutOrderBy q) rs = selectRows E q rs"
  by (induction rs) (simp_all add: withoutOrderBy_stages split: sum.splits)

lemma withoutOrderBy_selectGroups:
  "selectGroups E (withoutOrderBy q) gs = selectGroups E q gs"
  by (induction gs) (simp_all add: withoutOrderBy_stages split: sum.splits)

lemma withoutOrderBy_select:
  "applySelectAndHaving E (withoutOrderBy q) s = applySelectAndHaving E q s"
  by (simp add: applySelectAndHaving_def withoutOrderBy_stages Let_def
      withoutOrderBy_selectRows withoutOrderBy_selectGroups cong: sum.case_cong if_cong)

lemma withoutOrderBy_afterOrderBy:
  "afterOrderBy E (withoutOrderBy q) s = afterOrderBy E q s"
  by (simp add: afterOrderBy_def withoutOrderBy_select withoutOrderBy_stages
      cong: sum.case_cong)

lemma process_stages:
  "process EC U srv ctx q =
     (case beforeOrderBy EC U srv ctx q of
        Inl err \<Rightarrow> Inl err
      | Inr s2 \<Rightarrow>
          (case applyOrderBy (EC srv ctx) U q s2 of
             Inl err \<Rightarrow> Inl err
           | Inr s3 \<Rightarrow> afterOrderBy (EC srv ctx) q s3))"
  by (simp add: process_unfold beforeOrderBy_def afterFrom_def afterOrderBy_def
      split: sum.splits)

lemma beforeOrderBy_without:
  "beforeOrderBy EC U srv ctx (withoutOrderBy q) = beforeOrderBy EC U srv ctx q"
  by (simp add: beforeOrderBy_def withoutOrderBy_stages cong: sum.case_cong)

lemma beforeOrderBy_inv:
  assumes "groupBy q \<noteq> []" "beforeOrderBy EC U srv ctx q = Inr s"
  shows "\<forall>(h, a) \<in> set (groupedRows s). rows s < a \<and> a < fresh s"
proof -
  from assms(2) obtain s0 s1 where
    f: "applyFrom EC U srv ctx (from_list q) 0 init_processor = Inr s0"
    and w: "applyWhere (EC srv ctx) q s0 = Inr s1"
    and g: "applyGroupBy (EC srv ctx) U q s1 = Inr s"
    by (auto simp: beforeOrderBy_def split: sum.splits)
  have i: "rows init_processor < fresh init_processor" "groupedRows init_processor = []"
    by (simp_all add: init_processor_def)
  from applyFrom_inv [OF f i(1)] i(2) have "groupedRows s0 = []" "rows s0 < fresh s0" by simp_all
  with applyWhere_inv [OF w] have "groupedRows s1 = []" "rows s1 < fresh s1" by simp_all
  with applyGroupBy_inv [OF assms(1) g] show ?thesis by simp
qed

text \<open>
  C9, as the code has it. With a non-empty GROUP BY list that gives at least one
  group, every group is an array of its own, which the in-place sort of the rows
  array does not touch: when the ORDER BY stage raises no exception, \<open>process\<close>
  returns what it returns for the same query with an empty ORDER BY list.
\<close>

theorem grouped_orderBy:
  assumes "groupBy q \<noteq> []"
    and "beforeOrderBy EC U srv ctx q = Inr s"
    and "groupedRows s \<noteq> []"
    and "applyOrderBy (EC srv ctx) U q s = Inr s'"
  shows "process EC U srv ctx q = process EC U srv ctx (withoutOrderBy q)"
proof -
  from beforeOrderBy_inv [OF assms(1,2)]
  have inv: "\<forall>(h, a) \<in> set (groupedRows s). rows s < a \<and> a < fresh s" .
  have s': "groupedRows s' = groupedRows s" "fresh s' = fresh s"
    "\<forall>a. a \<noteq> rows s \<longrightarrow> heap s' a = heap s a"
    using assms(4) by (auto simp: applyOrderBy_def split: if_splits sum.splits)
  have "afterOrderBy (EC srv ctx) q s' = afterOrderBy (EC srv ctx) q s"
  proof (rule afterOrderBy_groups)
    show "groupedRows s' = groupedRows s" by (rule s')
    show "groupedRows s' \<noteq> []" using s' assms(3) by simp
    show "\<forall>(k, a) \<in> set (groupedRows s'). heap s' a = heap s a \<and> a < fresh s' \<and> a < fresh s"
      using inv s' by fastforce
  qed
  then show ?thesis
    using assms(2,4)
    by (simp add: process_stages beforeOrderBy_without withoutOrderBy_stages
        withoutOrderBy_afterOrderBy)
qed


lemmas run_defs = process_unfold afterFrom_def combineFrom_def applyWhere_def applyGroupBy_def
  hasAggregateFunction_def isAggregateColumn_def isColumnRef_def sc_type_def applyOrderBy_def
  applySelectAndHaving_def injectRow_def needsInputRow_def applyDistinct_def
  applyLimit_def init_processor_def Let_def this_rows_def aliasKeys_def
  selectRow_def mapRow_def checkIfKeep_def specEvaluator_def serverOf_def
  lower_char_def str_or_def mapKeys_def resolveColumn_def obj_get_def specUtils_def sortKeys_def
  firstRawRow_def new_array_def assign_rows_def update_rows_def quoted_def
  stringHash_def int32_def show_int_def show_nat.simps keyBefore_def arrayIndex_def

theorem grouped_orderBy_witness:
  "groupBy (countById [(ColumnRef (Some ''t'') ''id'', DESC)]) \<noteq> [] \<and>
   (\<exists>s. beforeOrderBy specEvaluator specUtils (serverOf ''mydb'' [(''t'', idsTable)]) []
           (countById [(ColumnRef (Some ''t'') ''id'', DESC)]) = Inr s \<and>
        groupedRows s \<noteq> [] \<and>
        (\<exists>s'. applyOrderBy (specEvaluator (serverOf ''mydb'' [(''t'', idsTable)]) []) specUtils
           (countById [(ColumnRef (Some ''t'') ''id'', DESC)]) s = Inr s')) \<and>
   process specEvaluator specUtils (serverOf ''mydb'' [(''t'', idsTable)]) []
     (countById [(ColumnRef (Some ''t'') ''id'', DESC)]) =
   process specEvaluator specUtils (serverOf ''mydb'' [(''t'', idsTable)]) []
     (withoutOrderBy (countById [(ColumnRef (Some ''t'') ''id'', DESC)])) \<and>
   process specEvaluator specUtils (serverOf ''mydb'' [(''t'', idsTable)]) []
     (withoutOrderBy (countById [(ColumnRef (Some ''t'') ''id'', DESC)])) =
   Inr [[(''c'', VNumber 2)], [(''c'', VNumber 1)]]"
proof -
  let ?q = "countById [(ColumnRef (Some ''t'') ''id'', DESC)]"
  let ?srv = "serverOf ''mydb'' [(''t'', idsTable)]"
  have g: "groupBy ?q \<noteq> []" by (simp add: countById_def)
  have b: "\<exists>s. beforeOrderBy specEvaluator specUtils ?srv [] ?q = Inr s \<and>
        groupedRows s \<noteq> [] \<and>
        (\<exists>s'. applyOrderBy (specEvaluator ?srv []) specUtils ?q s = Inr s')"
    by (simp add: beforeOrderBy_def run_defs countById_def idsTable_def)
  then obtain s s' where s: "beforeOrderBy specEvaluator specUtils ?srv [] ?q = Inr s"
    "groupedRows s \<noteq> []" "applyOrderBy (specEvaluator ?srv []) specUtils ?q s = Inr s'"
    by blast
  have e: "process specEvaluator specUtils ?srv [] ?q =
           process specEvaluator specUtils ?srv [] (withoutOrderBy ?q)"
    by (rule grouped_orderBy [OF g s])
  have r: "process specEvaluator specUtils ?srv [] (withoutOrderBy ?q) =
           Inr [[(''c'', VNumber 2)], [(''c'', VNumber 1)]]"
    by (simp add: withoutOrderBy_def run_defs countById_def idsTable_def)
  from g b e r show ?thesis by blast
qed

text \<open>
  C9, as the claim states it, fails in two ways. In single-group aggregate mode the
  one group is the rows array itself, which ORDER BY sorts in place: the first row
  of the group, on which HAVING is evaluated here, is another one with the ORDER BY
  list than without it. And with a GROUP BY list, an ORDER BY term that the
  evaluator rejects makes \<open>process\<close> raise the exception of the order clause, where
  the query without the ORDER BY list returns its rows.
\<close>

theorem grouped_orderBy_counterexample:
  "process specEvaluator specUtils (serverOf ''mydb'' [(''t'', flagsTable)]) []
     (countHaving [(ColumnRef (Some ''t'') ''id'', DESC)]) = Inr [[(''count()'', VNumber 2)]] \<and>
   process specEvaluator specUtils (serverOf ''mydb'' [(''t'', flagsTable)]) []
     (countHaving []) = Inr [] \<and>
   process specEvaluator specUtils (serverOf ''mydb'' [(''t'', flagsTable)]) []
     (countHaving [(ColumnRef (Some ''t'') ''id'', DESC)]) \<noteq>
   process specEvaluator specUtils (serverOf ''mydb'' [(''t'', flagsTable)]) []
     (countHaving []) \<and>
   process specEvaluator specUtils (serverOf ''mydb'' [(''t'', idsTable)]) []
     (countById [(ColumnRef (Some ''t'') ''missing'', ASC)]) =
     Inl (ProcessorException (''Unknown column '' @ [CHR 0x27] @ ''t.missing'' @ [CHR 0x27] @
       '' in '' @ [CHR 0x27] @ ''order clause'' @ [CHR 0x27])) \<and>
   process specEvaluator specUtils (serverOf ''mydb'' [(''t'', idsTable)]) []
     (countById []) = Inr [[(''c'', VNumber 2)], [(''c'', VNumber 1)]] \<and>
   process specEvaluator specUtils (serverOf ''mydb'' [(''t'', idsTable)]) []
     (countById [(ColumnRef (Some ''t'') ''missing'', ASC)]) \<noteq>
   process specEvaluator specUtils (serverOf ''mydb'' [(''t'', idsTable)]) []
     (countById [])"
proof -
  have a: "process specEvaluator specUtils (serverOf ''mydb'' [(''t'', flagsTable)]) []
     (countHaving [(ColumnRef (Some ''t'') ''id'', DESC)]) = Inr [[(''count()'', VNumber 2)]]"
    by (simp add: run_defs countHaving_def flagsTable_def)
  have b: "process specEvaluator specUtils (serverOf ''mydb'' [(''t'', flagsTable)]) []
     (countHaving []) = Inr []"
    by (simp add: run_defs countHaving_def flagsTable_def)
  have c: "process specEvaluator specUtils (serverOf ''mydb'' [(''t'', idsTable)]) []
     (countById [(ColumnRef (Some ''t'') ''missing'', ASC)]) =
     Inl (ProcessorException (''Unknown column '' @ [CHR 0x27] @ ''t.missing'' @ [CHR 0x27] @
       '' in '' @ [CHR 0x27] @ ''order clause'' @ [CHR 0x27]))"
    by (simp add: run_defs countById_def idsTable_def)
  have d: "process specEvaluator specUtils (serverOf ''mydb'' [(''t'', idsTable)]) []
     (countById []) = Inr [[(''c'', VNumber 2)], [(''c'', VNumber 1)]]"
    by (simp add: run_defs countById_def idsTable_def)
  show ?thesis
    unfolding a b c d by simp
qed

section \<open>INSERT\<close>

lemma static_fields:
  "static c = static c' \<Longrightarrow>
   col_name c = col_name c' \<and> nullable c = nullable c' \<and> cast c = cast c' \<and>
   isAutoIncrement c = isAutoIncrement c' \<and>
   defaultValueExpression c = defaultValueExpression c'"
proof -
  assume a: "static c = static c'"
  have "col_name (static c) = col_name (static c')" "nullable (static c) = nullable (static c')"
    "cast (static c) = cast (static c')" "integerColumn (static c) = integerColumn (static c')"
    "autoIncrement (static c) = autoIncrement (static c')"
    "defaultValueExpression (static c) = defaultValueExpression (static c')"
    using a by simp_all
  then show ?thesis by (simp add: static_def isAutoIncrement_def)
qed

lemma getNext_static:
  "getNextAutoIncrementValue t j = (n, t') \<Longrightarrow>
   map static (tcolumns t') = map static (tcolumns t) \<and> trows t' = trows t"
proof -
  assume a: "getNextAutoIncrementValue t j = (n, t')"
  let ?c = "tcolumns t ! j"
  from a have t': "t' = t\<lparr>tcolumns := (tcolumns t)[j := ?c\<lparr>autoIncrementCursor := n\<rparr>]\<rparr>"
    by (auto simp: getNextAutoIncrementValue_def Let_def)
  have "map static ((tcolumns t)[j := ?c\<lparr>autoIncrementCursor := n\<rparr>]) = map static (tcolumns t)"
  proof (cases "j < length (tcolumns t)")
    case True
    then show ?thesis
      by (simp add: map_update static_def list_update_same_conv)
  next
    case False
    then show ?thesis by (simp add: list_update_beyond not_less)
  qed
  with t' show ?thesis by simp
qed

lemma evaluateDefaultValue_static:
  "evaluateDefaultValue ev j r t = (x, t') \<Longrightarrow>
   map static (tcolumns t') = map static (tcolumns t) \<and> trows t' = trows t"
  by (auto simp: evaluateDefaultValue_def Let_def split: if_splits prod.splits option.splits
      dest: getNext_static)

lemma evaluateDefaultValue_noauto:
  "\<not> isAutoIncrement (tcolumns t ! j) \<Longrightarrow> evaluateDefaultValue ev j r t = (x, t') \<Longrightarrow> t' = t"
  by (auto simp: evaluateDefaultValue_def Let_def split: option.splits)

lemma resolveValue_static:
  "resolveValue ev tbl rawRow j t = (x, t') \<Longrightarrow>
   map static (tcolumns t') = map static (tcolumns t) \<and> trows t' = trows t"
  by (auto simp: resolveValue_def split: sum.splits if_splits dest: evaluateDefaultValue_static)

lemma resolveValue_noauto:
  "\<not> isAutoIncrement (tcolumns t ! j) \<Longrightarrow> resolveValue ev tbl rawRow j t = (x, t') \<Longrightarrow> t' = t"
  by (auto simp: resolveValue_def split: sum.splits if_splits dest: evaluateDefaultValue_noauto)

lemma buildRawRow_static:
  "buildRawRow ev tbl ces res t = (x, t') \<Longrightarrow>
   map static (tcolumns t') = map static (tcolumns t) \<and> trows t' = trows t"
proof (induction ces arbitrary: res t)
  case Nil
  then show ?case by simp
next
  case (Cons ce ces)
  obtain col e where ce: "ce = (col, e)" by (cases ce)
  show ?case
  proof (cases "expr_type e = ''default''")
    case False
    with Cons.prems ce show ?thesis
      by (auto split: sum.splits dest: Cons.IH)
  next
    case True
    show ?thesis
    proof (cases "columnDefinitionMap (tcolumns t) col")
      case None
      with Cons.prems ce True show ?thesis by auto
    next
      case (Some j)
      obtain y t1 where d: "evaluateDefaultValue ev j res t = (y, t1)"
        by (cases "evaluateDefaultValue ev j res t")
      from evaluateDefaultValue_static [OF d] Cons.prems ce True Some d show ?thesis
        by (cases y) (auto dest: Cons.IH)
    qed
  qed
qed

lemma buildRow_static:
  "buildRow ev tbl rawRow js res iid t = (x, t') \<Longrightarrow>
   map static (tcolumns t') = map static (tcolumns t) \<and> trows t' = trows t"
proof (induction js arbitrary: res iid t)
  case Nil
  then show ?case by simp
next
  case (Cons j js)
  obtain y t1 where r: "resolveValue ev tbl rawRow j t = (y, t1)"
    by (cases "resolveValue ev tbl rawRow j t")
  from resolveValue_static [OF r] Cons.prems r show ?case
    by (cases y) (auto simp: Let_def split: if_splits sum.splits dest: Cons.IH)
qed

lemma insertValues_rows:
  "insertValues ev tbl cols i vs acc t = (x, t') \<Longrightarrow>
   map static (tcolumns t') = map static (tcolumns t) \<and>
   (case x of
      Inl err \<Rightarrow> trows t' = trows t
    | Inr acc' \<Rightarrow> (\<exists>r. trows t' = trows t @ [r]) \<and> affectedRows acc' = affectedRows acc + 1)"
proof (cases "length vs \<noteq> length cols")
  case True
  assume "insertValues ev tbl cols i vs acc t = (x, t')"
  with True show ?thesis by (auto simp: insertValues_def)
next
  case False
  assume a: "insertValues ev tbl cols i vs acc t = (x, t')"
  obtain y t1 where b: "buildRawRow ev tbl (zip cols vs) [] t = (y, t1)"
    by (cases "buildRawRow ev tbl (zip cols vs) [] t")
  note s1 = buildRawRow_static [OF b]
  show ?thesis
  proof (cases y)
    case (Inl err)
    with a b False s1 show ?thesis by (auto simp: insertValues_def)
  next
    case (Inr rawRow)
    obtain z t2 where c: "buildRow ev tbl rawRow (columnPositions t1) [] (insertId acc) t1 = (z, t2)"
      by (cases "buildRow ev tbl rawRow (columnPositions t1) [] (insertId acc) t1")
    note s2 = buildRow_static [OF c]
    from a b c False Inr s1 s2 show ?thesis
      by (cases z) (auto simp: insertValues_def insertRow_def)
  qed
qed

lemma insertAll_append:
  "insertAll ev tbl cols i (xs @ ys) acc t =
     (case insertAll ev tbl cols i xs acc t of
        (Inl err, t') \<Rightarrow> (Inl err, t')
      | (Inr acc', t') \<Rightarrow> insertAll ev tbl cols (i + length xs) ys acc' t')"
  by (induction xs arbitrary: i acc t) (auto split: prod.splits sum.splits)

lemma insertAll_rows:
  "insertAll ev tbl cols i vss acc t = (Inr acc', t') \<Longrightarrow>
   map static (tcolumns t') = map static (tcolumns t) \<and>
   length (trows t') = length (trows t) + length vss \<and>
   take (length (trows t)) (trows t') = trows t \<and>
   affectedRows acc' = affectedRows acc + length vss"
proof (induction vss arbitrary: i acc t)
  case Nil
  then show ?case by simp
next
  case (Cons vs vss)
  from Cons.prems obtain acc1 t1 where
    v: "insertValues ev tbl cols i vs acc t = (Inr acc1, t1)"
    and r: "insertAll ev tbl cols (Suc i) vss acc1 t1 = (Inr acc', t')"
    by (auto split: prod.splits sum.splits)
  from insertValues_rows [OF v] obtain row where
    s1: "map static (tcolumns t1) = map static (tcolumns t)" "trows t1 = trows t @ [row]"
    "affectedRows acc1 = affectedRows acc + 1" by auto
  from Cons.IH [OF r] s1 show ?case
    by (auto simp: take_Suc_conv_app_nth)
qed

lemma static_nth:
  "map static xs = sc \<Longrightarrow> j < length sc \<Longrightarrow>
   col_name (xs ! j) = col_name (sc ! j) \<and> nullable (xs ! j) = nullable (sc ! j) \<and>
   cast (xs ! j) = cast (sc ! j) \<and> isAutoIncrement (xs ! j) = isAutoIncrement (sc ! j) \<and>
   defaultValueExpression (xs ! j) = defaultValueExpression (sc ! j)"
proof -
  assume a: "map static xs = sc" "j < length sc"
  then have "sc ! j = static (xs ! j)" by auto
  then show ?thesis by (simp add: static_def isAutoIncrement_def)
qed

lemma obj_get_obj_set: "obj_get (obj_set r k v) k' = (if k' = k then v else obj_get r k')"
  by (simp add: obj_get_def map_of_obj_set)

lemma buildRow_Cons_Inr:
  assumes "buildRow ev tbl rawRow (j # js) res iid t = (Inr out, t')"
  shows "\<exists>v v' t1. resolveValue ev tbl rawRow j t = (Inr v, t1) \<and>
           cast (tcolumns t1 ! j) v = Inr v' \<and>
           (v = VNull \<longrightarrow> nullable (tcolumns t1 ! j)) \<and>
           buildRow ev tbl rawRow js (obj_set res (col_name (tcolumns t1 ! j)) v')
             (if isAutoIncrement (tcolumns t1 ! j) then v else iid) t1 = (Inr out, t')"
proof -
  obtain y t1 where r: "resolveValue ev tbl rawRow j t = (y, t1)"
    by (cases "resolveValue ev tbl rawRow j t")
  with assms show ?thesis
    by (cases y) (auto simp: Let_def split: if_splits sum.splits)
qed

lemma resolveValue_auto:
  "isAutoIncrement (tcolumns t ! j) \<Longrightarrow>
   ev (ColumnRef (Some tbl) (col_name (tcolumns t ! j))) rawRow = Inr v0 \<Longrightarrow>
   v0 = VNull \<or> v0 = VUndefined \<Longrightarrow>
   resolveValue ev tbl rawRow j t =
     (Inr (VNumber (autoIncrementCursor (tcolumns t ! j) + 1)),
      t\<lparr>tcolumns := (tcolumns t)[j := (tcolumns t ! j)
            \<lparr>autoIncrementCursor := autoIncrementCursor (tcolumns t ! j) + 1\<rparr>]\<rparr>)"
  by (auto simp: resolveValue_def evaluateDefaultValue_def getNextAutoIncrementValue_def Let_def)

lemma buildRow_noauto:
  "buildRow ev tbl rawRow js res iid t = (Inr (r, iid'), t') \<Longrightarrow>
   map static (tcolumns t) = sc \<Longrightarrow>
   \<forall>j \<in> set js. j < length sc \<and> \<not> isAutoIncrement (sc ! j) \<Longrightarrow>
   iid' = iid \<and> t' = t"
proof (induction js arbitrary: res iid t)
  case Nil
  then show ?case by simp
next
  case (Cons j js)
  from buildRow_Cons_Inr [OF Cons.prems(1)] obtain v v' t1 where
    r: "resolveValue ev tbl rawRow j t = (Inr v, t1)"
    and b: "buildRow ev tbl rawRow js (obj_set res (col_name (tcolumns t1 ! j)) v')
             (if isAutoIncrement (tcolumns t1 ! j) then v else iid) t1 = (Inr (r, iid'), t')"
    by blast
  from Cons.prems(2,3) static_nth [of "tcolumns t" sc j]
  have na: "\<not> isAutoIncrement (tcolumns t ! j)" by simp
  from resolveValue_noauto [OF na r] have t1: "t1 = t" .
  from b t1 na have "buildRow ev tbl rawRow js (obj_set res (col_name (tcolumns t ! j)) v')
      iid t = (Inr (r, iid'), t')" by simp
  from Cons.IH [OF this Cons.prems(2)] Cons.prems(3) show ?case by simp
qed

lemma buildRow_keeps:
  "buildRow ev tbl rawRow js res iid t = (Inr (r, iid'), t') \<Longrightarrow>
   map static (tcolumns t) = sc \<Longrightarrow>
   \<forall>j \<in> set js. j < length sc \<and> col_name (sc ! j) \<noteq> k \<Longrightarrow>
   obj_get r k = obj_get res k"
proof (induction js arbitrary: res iid t)
  case Nil
  then show ?case by simp
next
  case (Cons j js)
  from buildRow_Cons_Inr [OF Cons.prems(1)] obtain v v' t1 where
    r: "resolveValue ev tbl rawRow j t = (Inr v, t1)"
    and b: "buildRow ev tbl rawRow js (obj_set res (col_name (tcolumns t1 ! j)) v')
             (if isAutoIncrement (tcolumns t1 ! j) then v else iid) t1 = (Inr (r, iid'), t')"
    by blast
  from resolveValue_static [OF r] Cons.prems(2) have s1: "map static (tcolumns t1) = sc" by simp
  from Cons.prems(3) static_nth [OF s1, of j] have n: "col_name (tcolumns t1 ! j) \<noteq> k" by simp
  from Cons.IH [OF b s1] Cons.prems(3) n show ?case
    by (simp add: obj_get_obj_set)
qed

lemma resolveValue_Inr:
  "resolveValue ev tbl rawRow j t = (Inr v, t1) \<Longrightarrow>
   \<exists>v0. ev (ColumnRef (Some tbl) (col_name (tcolumns t ! j))) rawRow = Inr v0 \<and>
        (v0 \<noteq> VNull \<and> v0 \<noteq> VUndefined \<longrightarrow> v = v0 \<and> t1 = t)"
  by (auto simp: resolveValue_def split: sum.splits if_splits)

lemma resolveValue_other:
  "resolveValue ev tbl rawRow k t = (x, t1) \<Longrightarrow> k \<noteq> j \<Longrightarrow> tcolumns t1 ! j = tcolumns t ! j"
  by (auto simp: resolveValue_def evaluateDefaultValue_def getNextAutoIncrementValue_def Let_def
      split: sum.splits if_splits option.splits)

lemma buildRow_auto:
  "buildRow ev tbl rawRow (js1 @ j # js2) res iid t = (Inr (r, iid'), t') \<Longrightarrow>
   map static (tcolumns t) = sc \<Longrightarrow>
   \<forall>k \<in> set (js1 @ j # js2). k < length sc \<Longrightarrow>
   isAutoIncrement (sc ! j) \<Longrightarrow>
   \<forall>k \<in> set js2. \<not> isAutoIncrement (sc ! k) \<and> col_name (sc ! k) \<noteq> col_name (sc ! j) \<Longrightarrow>
   j \<notin> set js1 \<Longrightarrow>
   cast (sc ! j) iid' = Inr (obj_get r (col_name (sc ! j))) \<and>
   (\<exists>v0. ev (ColumnRef (Some tbl) (col_name (sc ! j))) rawRow = Inr v0 \<and>
      iid' = (if v0 = VNull \<or> v0 = VUndefined
              then VNumber (autoIncrementCursor (tcolumns t' ! j)) else v0) \<and>
      (v0 = VNull \<or> v0 = VUndefined \<longrightarrow>
         autoIncrementCursor (tcolumns t' ! j) = autoIncrementCursor (tcolumns t ! j) + 1))"
proof (induction js1 arbitrary: res iid t)
  case Nil
  from Nil.prems(1) buildRow_Cons_Inr [of ev tbl rawRow j js2 res iid t "(r, iid')" t']
  obtain v v' t1 where
    rv: "resolveValue ev tbl rawRow j t = (Inr v, t1)"
    and c: "cast (tcolumns t1 ! j) v = Inr v'"
    and b: "buildRow ev tbl rawRow js2 (obj_set res (col_name (tcolumns t1 ! j)) v')
             (if isAutoIncrement (tcolumns t1 ! j) then v else iid) t1 = (Inr (r, iid'), t')"
    by auto
  from resolveValue_static [OF rv] Nil.prems(2) have s1: "map static (tcolumns t1) = sc" by simp
  from Nil.prems(3) have j: "j < length sc" by simp
  note a1 = static_nth [OF s1 j]
  note a0 = static_nth [OF Nil.prems(2) j]
  from b a1 Nil.prems(4)
  have b': "buildRow ev tbl rawRow js2 (obj_set res (col_name (sc ! j)) v') v t1
              = (Inr (r, iid'), t')" by simp
  from Nil.prems(3,5) have n2: "\<forall>k \<in> set js2. k < length sc \<and> \<not> isAutoIncrement (sc ! k)"
    and k2: "\<forall>k \<in> set js2. k < length sc \<and> col_name (sc ! k) \<noteq> col_name (sc ! j)"
    by auto
  from buildRow_noauto [OF b' s1 n2] have e: "iid' = v" "t' = t1" by simp_all
  from buildRow_keeps [OF b' s1 k2] have g: "obj_get r (col_name (sc ! j)) = v'"
    by (simp add: obj_get_obj_set)
  from resolveValue_Inr [OF rv] a0 obtain v0 where
    lk: "ev (ColumnRef (Some tbl) (col_name (tcolumns t ! j))) rawRow = Inr v0"
    and given: "v0 \<noteq> VNull \<and> v0 \<noteq> VUndefined \<longrightarrow> v = v0 \<and> t1 = t"
    by blast
  from a0 Nil.prems(4) have au: "isAutoIncrement (tcolumns t ! j)" by simp
  from Nil.prems(2) j have jt: "j < length (tcolumns t)" by auto
  have "iid' = (if v0 = VNull \<or> v0 = VUndefined
                then VNumber (autoIncrementCursor (tcolumns t' ! j)) else v0) \<and>
        (v0 = VNull \<or> v0 = VUndefined \<longrightarrow>
           autoIncrementCursor (tcolumns t' ! j) = autoIncrementCursor (tcolumns t ! j) + 1)"
  proof (cases "v0 = VNull \<or> v0 = VUndefined")
    case True
    from resolveValue_auto [of t j ev tbl rawRow v0, OF au lk True] rv jt
    have "v = VNumber (autoIncrementCursor (tcolumns t1 ! j))"
      "autoIncrementCursor (tcolumns t1 ! j) = autoIncrementCursor (tcolumns t ! j) + 1"
      by auto
    with e True show ?thesis by simp
  next
    case False
    with given e show ?thesis by simp
  qed
  with lk a0 have "\<exists>v0. ev (ColumnRef (Some tbl) (col_name (sc ! j))) rawRow = Inr v0 \<and>
      iid' = (if v0 = VNull \<or> v0 = VUndefined
              then VNumber (autoIncrementCursor (tcolumns t' ! j)) else v0) \<and>
      (v0 = VNull \<or> v0 = VUndefined \<longrightarrow>
         autoIncrementCursor (tcolumns t' ! j) = autoIncrementCursor (tcolumns t ! j) + 1)"
    by auto
  with c a1 e g show ?case by simp
next
  case (Cons a js1)
  from Cons.prems(1) buildRow_Cons_Inr [of ev tbl rawRow a "js1 @ j # js2" res iid t "(r, iid')" t']
  obtain v v' t1 where
    rv: "resolveValue ev tbl rawRow a t = (Inr v, t1)"
    and b: "buildRow ev tbl rawRow (js1 @ j # js2) (obj_set res (col_name (tcolumns t1 ! a)) v')
             (if isAutoIncrement (tcolumns t1 ! a) then v else iid) t1 = (Inr (r, iid'), t')"
    by auto
  from resolveValue_static [OF rv] Cons.prems(2) have s1: "map static (tcolumns t1) = sc" by simp
  from Cons.prems(3) have p3: "\<forall>k \<in> set (js1 @ j # js2). k < length sc" by simp
  from Cons.prems(6) have nj: "a \<noteq> j" "j \<notin> set js1" by auto
  from resolveValue_other [OF rv nj(1)] have same: "tcolumns t1 ! j = tcolumns t ! j" .
  from Cons.IH [OF b s1 p3 Cons.prems(4,5) nj(2)] same show ?case by simp
qed

lemma columnPositions_upt: "columnPositions t = [0..<length (tcolumns t)]"
  by (simp add: columnPositions_def map_fst_enumerate)

lemma upt_split: "j < n \<Longrightarrow> [0..<n] = [0..<j] @ j # [Suc j..<n]"
  using upt_add_eq_append [of 0 j "n - j"] upt_conv_Cons [of j n] by simp

lemma insertValues_Inr:
  assumes "insertValues ev tbl cols i vs acc t = (Inr acc', t')"
  shows "\<exists>rawRow t2 r t3. length vs = length cols \<and>
           buildRawRow ev tbl (zip cols vs) [] t = (Inr rawRow, t2) \<and>
           buildRow ev tbl rawRow (columnPositions t2) [] (insertId acc) t2
             = (Inr (r, insertId acc'), t3) \<and>
           t' = insertRow t3 r \<and> affectedRows acc' = affectedRows acc + 1"
proof -
  from assms have len: "length vs = length cols"
    by (auto simp: insertValues_def split: if_splits)
  obtain y t2 where b: "buildRawRow ev tbl (zip cols vs) [] t = (y, t2)"
    by (cases "buildRawRow ev tbl (zip cols vs) [] t")
  with assms len obtain rawRow where y: "y = Inr rawRow"
    by (cases y) (auto simp: insertValues_def)
  obtain z t3 where c: "buildRow ev tbl rawRow (columnPositions t2) [] (insertId acc) t2 = (z, t3)"
    by (cases "buildRow ev tbl rawRow (columnPositions t2) [] (insertId acc) t2")
  with assms len b y obtain r iid where z: "z = Inr (r, iid)"
    by (cases z) (auto simp: insertValues_def)
  from assms len b y c z show ?thesis
    by (auto simp: insertValues_def)
qed

lemma insertValues_noauto:
  assumes "insertValues ev tbl cols i vs acc t = (Inr acc', t')"
    and "\<forall>c \<in> set (tcolumns t). \<not> isAutoIncrement c"
  shows "insertId acc' = insertId acc"
proof -
  from insertValues_Inr [OF assms(1)] obtain rawRow t2 r t3 where
    b: "buildRawRow ev tbl (zip cols vs) [] t = (Inr rawRow, t2)"
    and c: "buildRow ev tbl rawRow (columnPositions t2) [] (insertId acc) t2
             = (Inr (r, insertId acc'), t3)"
    by blast
  from buildRawRow_static [OF b] have s2: "map static (tcolumns t2) = map static (tcolumns t)"
    by simp
  then have l: "length (tcolumns t2) = length (tcolumns t)" by (metis length_map)
  have "\<forall>j \<in> set (columnPositions t2). j < length (map static (tcolumns t)) \<and>
          \<not> isAutoIncrement (map static (tcolumns t) ! j)"
    using assms(2) l by (simp add: columnPositions_upt static_def isAutoIncrement_def)
  from buildRow_noauto [OF c s2 this] show ?thesis by simp
qed

lemma static_noauto:
  assumes "map static xs = map static ys" "\<forall>c \<in> set ys. \<not> isAutoIncrement c"
  shows "\<forall>c \<in> set xs. \<not> isAutoIncrement c"
proof
  fix c assume "c \<in> set xs"
  then obtain j where j: "j < length xs" "xs ! j = c" by (auto simp: in_set_conv_nth)
  from assms(1) have l: "length xs = length ys" by (rule map_eq_imp_length_eq)
  with j have j': "j < length (map static ys)" by simp
  from static_nth [OF assms(1) j'] static_nth [OF refl j']
  have "isAutoIncrement (xs ! j) = isAutoIncrement (ys ! j)" by simp
  with assms(2) j l show "\<not> isAutoIncrement c" by auto
qed

lemma insertAll_noauto:
  "insertAll ev tbl cols i vss acc t = (Inr acc', t') \<Longrightarrow>
   \<forall>c \<in> set (tcolumns t). \<not> isAutoIncrement c \<Longrightarrow> insertId acc' = insertId acc"
proof (induction vss arbitrary: i acc t)
  case Nil
  then show ?case by simp
next
  case (Cons vs vss)
  from Cons.prems(1) obtain acc1 t1 where
    v: "insertValues ev tbl cols i vs acc t = (Inr acc1, t1)"
    and r: "insertAll ev tbl cols (Suc i) vss acc1 t1 = (Inr acc', t')"
    by (auto split: prod.splits sum.splits)
  from insertValues_rows [OF v] have "map static (tcolumns t1) = map static (tcolumns t)" by simp
  then have "\<forall>c \<in> set (tcolumns t1). \<not> isAutoIncrement c"
    using Cons.prems(2) by (rule static_noauto)
  from Cons.IH [OF r this] insertValues_noauto [OF v Cons.prems(2)] show ?case by simp
qed

lemma insertInto_unfold:
  "insertInto ev q t =
     insertAll ev (iq_table q) (insertColumns q t) 0 (iq_values q)
       \<lparr>affectedRows = 0, insertId = VNumber 0\<rparr> t"
  by (simp add: insertInto_def insertColumns_def)

lemma insertInto_prefix [simp]:
  "iq_table (q\<lparr>iq_values := vss\<rparr>) = iq_table q"
  "insertColumns (q\<lparr>iq_values := vss\<rparr>) t = insertColumns q t"
  by (simp_all add: insertColumns_def)

lemma insertInto_last:
  assumes ok: "insertInto ev q t = (Inr res, t')" and vals: "iq_values q = pre @ [vs]"
  shows "\<exists>acc1 t1 rawRow t2 r t3.
           insertInto ev (q\<lparr>iq_values := pre\<rparr>) t = (Inr acc1, t1) \<and>
           map static (tcolumns t1) = map static (tcolumns t) \<and>
           buildRawRow ev (iq_table q) (zip (insertColumns q t) vs) [] t1 = (Inr rawRow, t2) \<and>
           buildRow ev (iq_table q) rawRow (columnPositions t2) [] (insertId acc1) t2
             = (Inr (r, insertId res), t3) \<and>
           t' = insertRow t3 r"
proof -
  let ?a0 = "\<lparr>affectedRows = 0, insertId = VNumber 0\<rparr>"
  obtain x t1 where p: "insertAll ev (iq_table q) (insertColumns q t) 0 pre ?a0 t = (x, t1)"
    by (cases "insertAll ev (iq_table q) (insertColumns q t) 0 pre ?a0 t")
  from ok vals p obtain acc1 where x: "x = Inr acc1"
    by (cases x) (simp_all add: insertInto_unfold insertAll_append)
  from ok vals p x
  have "insertAll ev (iq_table q) (insertColumns q t) (length pre) [vs] acc1 t1 = (Inr res, t')"
    by (simp add: insertInto_unfold insertAll_append)
  then have v: "insertValues ev (iq_table q) (insertColumns q t) (length pre) vs acc1 t1
                  = (Inr res, t')"
    by (auto split: prod.splits sum.splits)
  from insertAll_rows [of ev "iq_table q" "insertColumns q t" 0 pre ?a0 t acc1 t1] p x
  have s1: "map static (tcolumns t1) = map static (tcolumns t)" by simp
  from insertValues_Inr [OF v] p x s1 show ?thesis
    by (simp add: insertInto_unfold) blast
qed

text \<open>
  C3, as the code has it. When an INSERT of \<open>n\<close> value tuples raises nothing, the
  table has its old rows and \<open>n\<close> more, \<open>affectedRows\<close> is \<open>n\<close>, and \<open>insertId\<close> is 0 when
  the table has no auto-increment column (or \<open>n\<close> is 0). Otherwise \<open>insertId\<close> is what
  the last tuple gave the table's last auto-increment column, taken before the cast
  of the column: the value that the raw row of the last tuple has for the column, as
  the evaluator gave it, or, when that is null or nothing, the next value of the
  column's counter. The row that was inserted last holds the cast of \<open>insertId\<close>
  under that column.
\<close>

theorem insert_summary:
  assumes ok: "insertInto ev q t = (Inr res, t')"
  shows
    "length (trows t') = length (trows t) + length (iq_values q) \<and>
     take (length (trows t)) (trows t') = trows t \<and>
     affectedRows res = length (iq_values q) \<and>
     ((\<forall>c \<in> set (tcolumns t). \<not> (integerColumn c \<and> autoIncrement c)) \<longrightarrow>
        insertId res = VNumber 0) \<and>
     (iq_values q = [] \<longrightarrow> insertId res = VNumber 0) \<and>
     (\<forall>j. iq_values q \<noteq> [] \<and> j < length (tcolumns t) \<and>
          integerColumn (tcolumns t ! j) \<and> autoIncrement (tcolumns t ! j) \<and>
          (\<forall>k. j < k \<and> k < length (tcolumns t) \<longrightarrow>
             \<not> (integerColumn (tcolumns t ! k) \<and> autoIncrement (tcolumns t ! k)) \<and>
             col_name (tcolumns t ! k) \<noteq> col_name (tcolumns t ! j)) \<longrightarrow>
        cast (tcolumns t ! j) (insertId res) =
          Inr (obj_get (last (trows t')) (col_name (tcolumns t ! j))) \<and>
        (\<exists>pre vs acc1 t1 rawRow t2 v0.
           iq_values q = pre @ [vs] \<and>
           insertInto ev (q\<lparr>iq_values := pre\<rparr>) t = (Inr acc1, t1) \<and>
           buildRawRow ev (iq_table q) (zip (insertColumns q t) vs) [] t1 = (Inr rawRow, t2) \<and>
           ev (ColumnRef (Some (iq_table q)) (col_name (tcolumns t ! j))) rawRow = Inr v0 \<and>
           insertId res =
             (if v0 = VNull \<or> v0 = VUndefined
              then VNumber (autoIncrementCursor (tcolumns t2 ! j) + 1) else v0) \<and>
           (v0 = VNull \<or> v0 = VUndefined \<longrightarrow>
              autoIncrementCursor (tcolumns t' ! j) = autoIncrementCursor (tcolumns t2 ! j) + 1)))"
proof (intro conjI allI impI)
  let ?a0 = "\<lparr>affectedRows = 0, insertId = VNumber 0\<rparr>"
  from ok have all: "insertAll ev (iq_table q) (insertColumns q t) 0 (iq_values q) ?a0 t
      = (Inr res, t')" by (simp add: insertInto_unfold)
  note rows = insertAll_rows [OF all]
  from rows show "length (trows t') = length (trows t) + length (iq_values q)" by simp
  from rows show "take (length (trows t)) (trows t') = trows t" by simp
  from rows show "affectedRows res = length (iq_values q)" by simp
  {
    assume "\<forall>c \<in> set (tcolumns t). \<not> (integerColumn c \<and> autoIncrement c)"
    then have "\<forall>c \<in> set (tcolumns t). \<not> isAutoIncrement c" by (simp add: isAutoIncrement_def)
    from insertAll_noauto [OF all this] show "insertId res = VNumber 0" by simp
  }
  {
    assume "iq_values q = []"
    with all show "insertId res = VNumber 0" by auto
  }
  {
    fix j
    assume h: "iq_values q \<noteq> [] \<and> j < length (tcolumns t) \<and>
          integerColumn (tcolumns t ! j) \<and> autoIncrement (tcolumns t ! j) \<and>
          (\<forall>k. j < k \<and> k < length (tcolumns t) \<longrightarrow>
             \<not> (integerColumn (tcolumns t ! k) \<and> autoIncrement (tcolumns t ! k)) \<and>
             col_name (tcolumns t ! k) \<noteq> col_name (tcolumns t ! j))"
    let ?sc = "map static (tcolumns t)"
    let ?n = "length (tcolumns t)"
    from h have vals: "iq_values q = butlast (iq_values q) @ [last (iq_values q)]" by simp
    from insertInto_last [OF ok vals] obtain acc1 t1 rawRow t2 r t3 where
      p0: "insertInto ev (q\<lparr>iq_values := butlast (iq_values q)\<rparr>) t = (Inr acc1, t1)"
      and s1: "map static (tcolumns t1) = ?sc"
      and b: "buildRawRow ev (iq_table q) (zip (insertColumns q t) (last (iq_values q))) [] t1
                = (Inr rawRow, t2)"
      and c: "buildRow ev (iq_table q) rawRow (columnPositions t2) [] (insertId acc1) t2
                = (Inr (r, insertId res), t3)"
      and t': "t' = insertRow t3 r"
      by (elim exE conjE) (rule that)
    from buildRawRow_static [OF b] s1 have s2: "map static (tcolumns t2) = ?sc" by simp
    then have "length (map static (tcolumns t2)) = length ?sc" by (rule arg_cong)
    then have l2: "length (tcolumns t2) = ?n" by simp
    from h have jn: "j < ?n" by simp
    have pos: "columnPositions t2 = [0..<j] @ j # [Suc j..<?n]"
      using upt_split [OF jn] l2 by (simp add: columnPositions_upt)
    have st: "\<And>k. k < ?n \<Longrightarrow> isAutoIncrement (?sc ! k) = isAutoIncrement (tcolumns t ! k) \<and>
                 col_name (?sc ! k) = col_name (tcolumns t ! k) \<and>
                 cast (?sc ! k) = cast (tcolumns t ! k)"
      using static_nth [OF refl, of _ "tcolumns t"] by simp
    have p1: "\<forall>k \<in> set ([0..<j] @ j # [Suc j..<?n]). k < length ?sc" using jn by auto
    have p2: "isAutoIncrement (?sc ! j)" using h st [OF jn] by (simp add: isAutoIncrement_def)
    have p3: "\<forall>k \<in> set [Suc j..<?n]. \<not> isAutoIncrement (?sc ! k) \<and>
                col_name (?sc ! k) \<noteq> col_name (?sc ! j)"
      using h st jn by (auto simp: isAutoIncrement_def)
    have p4: "j \<notin> set [0..<j]" by simp
    from c pos have c': "buildRow ev (iq_table q) rawRow ([0..<j] @ j # [Suc j..<?n]) []
        (insertId acc1) t2 = (Inr (r, insertId res), t3)" by simp
    note main = buildRow_auto [OF c' s2 p1 p2 p3 p4]
    from main st [OF jn] t'
    show "cast (tcolumns t ! j) (insertId res) =
          Inr (obj_get (last (trows t')) (col_name (tcolumns t ! j)))"
      by (simp add: insertRow_def)
    from main st [OF jn] obtain v0 where
      v0: "ev (ColumnRef (Some (iq_table q)) (col_name (tcolumns t ! j))) rawRow = Inr v0"
      and iid: "insertId res =
             (if v0 = VNull \<or> v0 = VUndefined
              then VNumber (autoIncrementCursor (tcolumns t3 ! j)) else v0)"
      and cur: "v0 = VNull \<or> v0 = VUndefined \<longrightarrow>
              autoIncrementCursor (tcolumns t3 ! j) = autoIncrementCursor (tcolumns t2 ! j) + 1"
      by auto
    from t' have tc: "tcolumns t' = tcolumns t3" by (simp add: insertRow_def)
    from iid cur have iid': "insertId res =
             (if v0 = VNull \<or> v0 = VUndefined
              then VNumber (autoIncrementCursor (tcolumns t2 ! j) + 1) else v0)"
      by auto
    from cur tc have cur': "v0 = VNull \<or> v0 = VUndefined \<longrightarrow>
              autoIncrementCursor (tcolumns t' ! j) = autoIncrementCursor (tcolumns t2 ! j) + 1"
      by simp
    from vals p0 b v0 iid' cur'
    show "\<exists>pre vs acc1 t1 rawRow t2 v0.
           iq_values q = pre @ [vs] \<and>
           insertInto ev (q\<lparr>iq_values := pre\<rparr>) t = (Inr acc1, t1) \<and>
           buildRawRow ev (iq_table q) (zip (insertColumns q t) vs) [] t1 = (Inr rawRow, t2) \<and>
           ev (ColumnRef (Some (iq_table q)) (col_name (tcolumns t ! j))) rawRow = Inr v0 \<and>
           insertId res =
             (if v0 = VNull \<or> v0 = VUndefined
              then VNumber (autoIncrementCursor (tcolumns t2 ! j) + 1) else v0) \<and>
           (v0 = VNull \<or> v0 = VUndefined \<longrightarrow>
              autoIncrementCursor (tcolumns t' ! j) = autoIncrementCursor (tcolumns t2 ! j) + 1)"
      by (intro exI [of _ "butlast (iq_values q)"] exI [of _ "last (iq_values q)"]
          exI [of _ acc1] exI [of _ t1] exI [of _ rawRow] exI [of _ t2] exI [of _ v0]) simp
  }
qed

text \<open>
  C2. When the tuples before the one at 1-based index \<open>i\<close> are inserted without an
  exception and the cast of a column raises, for tuple \<open>i\<close>, an error with code
  \<open>OUT_OF_RANGE_VALUE\<close> or \<open>INCORRECT_INTEGER_VALUE\<close>, the INSERT raises the
  \<open>ProcessorError\<close> with the message of that error followed by \<open>at row i\<close>; the tuples
  after \<open>i\<close> play no part, and the table keeps its old rows and the \<open>i - 1\<close> rows
  inserted before.
\<close>

theorem insert_cast_failure:
  assumes vals: "iq_values q = pre @ vs # rest"
    and pre: "insertInto ev (q\<lparr>iq_values := pre\<rparr>) t = (Inr acc1, t1)"
    and len: "length vs = length (insertColumns q t)"
    and raw: "buildRawRow ev (iq_table q) (zip (insertColumns q t) vs) [] t1 = (Inr rawRow, t2)"
    and fail: "buildRow ev (iq_table q) rawRow (columnPositions t2) [] (insertId acc1) t2
                 = (Inl (CastFailure (ServerError code msg)), t3)"
    and code: "code = ''OUT_OF_RANGE_VALUE'' \<or> code = ''INCORRECT_INTEGER_VALUE''"
  shows "insertInto ev q t =
           (Inl (ProcessorError (msg @ '' at row '' @ show_nat (length pre + 1))), t3) \<and>
         insertInto ev (q\<lparr>iq_values := pre @ [vs]\<rparr>) t = insertInto ev q t \<and>
         trows t3 = trows t1 \<and>
         length (trows t1) = length (trows t) + length pre \<and>
         take (length (trows t)) (trows t1) = trows t \<and>
         affectedRows acc1 = length pre"
proof -
  let ?a0 = "\<lparr>affectedRows = 0, insertId = VNumber 0\<rparr>"
  let ?e = "ProcessorError (msg @ '' at row '' @ show_nat (length pre + 1))"
  from pre have p: "insertAll ev (iq_table q) (insertColumns q t) 0 pre ?a0 t = (Inr acc1, t1)"
    by (simp add: insertInto_unfold)
  from code have cc: "catchCast (length pre) (CastFailure (ServerError code msg)) = ?e"
    by auto
  from len raw fail cc
  have v: "insertValues ev (iq_table q) (insertColumns q t) (length pre) vs acc1 t1 = (Inl ?e, t3)"
    by (simp add: insertValues_def)
  from p v have r: "insertAll ev (iq_table q) (insertColumns q t) 0 (pre @ vs # ws) ?a0 t
      = (Inl ?e, t3)" for ws
    by (simp add: insertAll_append)
  from r [of rest] vals have a: "insertInto ev q t = (Inl ?e, t3)"
    by (simp add: insertInto_unfold)
  from r [of "[]"] have b: "insertInto ev (q\<lparr>iq_values := pre @ [vs]\<rparr>) t = (Inl ?e, t3)"
    by (simp add: insertInto_unfold)
  from buildRawRow_static [OF raw] buildRow_static [OF fail]
  have c: "trows t3 = trows t1" by simp
  from insertAll_rows [OF p] a b c show ?thesis by simp
qed


lemmas insert_defs = insertInto_def insertValues_def columnPositions_def
  integerColumnOf_def varcharColumnOf_def columnDefinitionMap_def evaluateDefaultValue_def
  resolveValue_def getNextAutoIncrementValue_def isAutoIncrement_def obj_get_def castRange_def
  castNull_def insertRow_def Let_def show_nat.simps insertColumns_def keyBefore_def
  arrayIndex_def

text \<open>
  The scenario of the claim: \<open>INSERT INTO t (name) VALUES ('ok'), ('toolong')\<close> leaves
  the first row in the table with \<open>id = 1\<close> and raises the error of row 2.
\<close>

theorem insert_cast_failure_witness:
  "fst (insertInto insertEvaluate (insertNames [[StringE ''ok''], [StringE ''toolong'']])
          exampleTable) = Inl (ProcessorError ''OUT_OF_RANGE_VALUE at row 2'') \<and>
   trows (snd (insertInto insertEvaluate (insertNames [[StringE ''ok''], [StringE ''toolong'']])
          exampleTable)) = [[(''id'', VNumber 1), (''name'', VString ''ok'')]]"
proof -
  let ?q = "insertNames [[StringE ''ok''], [StringE ''toolong'']]"
  have vals: "iq_values ?q = [[StringE ''ok'']] @ [StringE ''toolong''] # []"
    by (simp add: insertNames_def)
  have len: "length [StringE ''toolong''] = length (insertColumns ?q exampleTable)"
    by (simp add: insertNames_def insertColumns_def)
  have "\<exists>acc1 t1. insertInto insertEvaluate (?q\<lparr>iq_values := [[StringE ''ok'']]\<rparr>) exampleTable
            = (Inr acc1, t1) \<and>
          trows t1 = [[(''id'', VNumber 1), (''name'', VString ''ok'')]] \<and>
          (\<exists>rawRow t2.
             buildRawRow insertEvaluate (iq_table ?q)
               (zip (insertColumns ?q exampleTable) [StringE ''toolong'']) [] t1
               = (Inr rawRow, t2) \<and>
             (\<exists>t3. buildRow insertEvaluate (iq_table ?q) rawRow (columnPositions t2) []
                      (insertId acc1) t2
                    = (Inl (CastFailure
                         (ServerError ''OUT_OF_RANGE_VALUE'' ''OUT_OF_RANGE_VALUE'')), t3)))"
    by (simp add: insert_defs insertNames_def exampleTable_def)
  then obtain acc1 t1 rawRow t2 t3 where
    pre: "insertInto insertEvaluate (?q\<lparr>iq_values := [[StringE ''ok'']]\<rparr>) exampleTable
            = (Inr acc1, t1)"
    and rows: "trows t1 = [[(''id'', VNumber 1), (''name'', VString ''ok'')]]"
    and raw: "buildRawRow insertEvaluate (iq_table ?q)
               (zip (insertColumns ?q exampleTable) [StringE ''toolong'']) [] t1
               = (Inr rawRow, t2)"
    and fail: "buildRow insertEvaluate (iq_table ?q) rawRow (columnPositions t2) []
                      (insertId acc1) t2
                    = (Inl (CastFailure
                         (ServerError ''OUT_OF_RANGE_VALUE'' ''OUT_OF_RANGE_VALUE'')), t3)"
    by (elim exE conjE) (rule that)
  from insert_cast_failure [OF vals pre len raw fail] rows show ?thesis
    by (simp add: show_nat.simps)
qed

text \<open>
  \<open>INSERT INTO t (name) VALUES ('a'), ('b')\<close> on the new table: two rows, and \<open>insertId\<close>
  is 2, the value the counter gave the second row.
\<close>

theorem insert_summary_witness:
  "\<exists>res t'. insertInto insertEvaluate (insertNames [[StringE ''a''], [StringE ''b'']])
       exampleTable = (Inr res, t') \<and>
     length (trows t') = 2 \<and> affectedRows res = 2 \<and> insertId res = VNumber 2 \<and>
     autoIncrementCursor (tcolumns t' ! 0) = 2 \<and>
     last (trows t') = [(''id'', VNumber 2), (''name'', VString ''b'')] \<and>
     cast (tcolumns exampleTable ! 0) (insertId res) = Inr (obj_get (last (trows t')) ''id'')"
proof -
  let ?q = "insertNames [[StringE ''a''], [StringE ''b'']]"
  have "\<exists>res t'. insertInto insertEvaluate ?q exampleTable = (Inr res, t') \<and>
          insertId res = VNumber 2 \<and> autoIncrementCursor (tcolumns t' ! 0) = 2 \<and>
          last (trows t') = [(''id'', VNumber 2), (''name'', VString ''b'')]"
    by (simp add: insert_defs insertNames_def exampleTable_def)
  then obtain res t' where ok: "insertInto insertEvaluate ?q exampleTable = (Inr res, t')"
    and r: "insertId res = VNumber 2" "autoIncrementCursor (tcolumns t' ! 0) = 2"
      "last (trows t') = [(''id'', VNumber 2), (''name'', VString ''b'')]"
    by (elim exE conjE) (rule that)
  from insert_summary [OF ok]
  have "length (trows t') = length (trows exampleTable) + length (iq_values ?q)"
    "affectedRows res = length (iq_values ?q)" by simp_all
  then have n: "length (trows t') = 2" "affectedRows res = 2"
    by (simp_all add: insertNames_def exampleTable_def)
  from insert_summary [OF ok]
  have "iq_values ?q \<noteq> [] \<and> 0 < length (tcolumns exampleTable) \<and>
          integerColumn (tcolumns exampleTable ! 0) \<and> autoIncrement (tcolumns exampleTable ! 0) \<and>
          (\<forall>k. 0 < k \<and> k < length (tcolumns exampleTable) \<longrightarrow>
             \<not> (integerColumn (tcolumns exampleTable ! k) \<and>
                autoIncrement (tcolumns exampleTable ! k)) \<and>
             col_name (tcolumns exampleTable ! k) \<noteq> col_name (tcolumns exampleTable ! 0)) \<longrightarrow>
        cast (tcolumns exampleTable ! 0) (insertId res) =
          Inr (obj_get (last (trows t')) (col_name (tcolumns exampleTable ! 0)))"
    by blast
  then have "cast (tcolumns exampleTable ! 0) (insertId res) =
          Inr (obj_get (last (trows t')) ''id'')"
    by (auto simp: insertNames_def exampleTable_def integerColumnOf_def varcharColumnOf_def
        less_Suc_eq)
  with ok r n show ?thesis by simp
qed

text \<open>
  C3, as the claim states it: \<open>insertId\<close> would be the last auto-increment value
  assigned. \<open>INSERT INTO t (id, name) VALUES ('12', 'a')\<close> on the new table stores the
  number 12 under \<open>id\<close>, the counter assigns nothing, and \<open>insertId\<close> is the string
  \<open>'12'\<close>, the value before the cast. \<open>INSERT INTO t (id, name) VALUES (NULL, 'a'), (5,
  'b')\<close> has the counter assign 1 to the first row and nothing after it, and \<open>insertId\<close>
  is 5, the value given for the second row.
\<close>

theorem insert_summary_counterexample:
  "fst (insertInto insertEvaluate (insertPairs [[StringE ''12'', StringE ''a'']]) exampleTable) =
     Inr \<lparr>affectedRows = 1, insertId = VString ''12''\<rparr> \<and>
   trows (snd (insertInto insertEvaluate (insertPairs [[StringE ''12'', StringE ''a'']])
          exampleTable)) = [[(''id'', VNumber 12), (''name'', VString ''a'')]] \<and>
   map autoIncrementCursor (tcolumns (snd (insertInto insertEvaluate
          (insertPairs [[StringE ''12'', StringE ''a'']]) exampleTable))) = [0, 0] \<and>
   VString ''12'' \<noteq> VNumber 12 \<and>
   fst (insertInto insertEvaluate
          (insertPairs [[NullE, StringE ''a''], [NumberE 5, StringE ''b'']]) exampleTable) =
     Inr \<lparr>affectedRows = 2, insertId = VNumber 5\<rparr> \<and>
   trows (snd (insertInto insertEvaluate
          (insertPairs [[NullE, StringE ''a''], [NumberE 5, StringE ''b'']]) exampleTable)) =
     [[(''id'', VNumber 1), (''name'', VString ''a'')],
      [(''id'', VNumber 5), (''name'', VString ''b'')]] \<and>
   map autoIncrementCursor (tcolumns (snd (insertInto insertEvaluate
          (insertPairs [[NullE, StringE ''a''], [NumberE 5, StringE ''b'']]) exampleTable))) =
     [1, 0]"
proof -
  have a: "insertInto insertEvaluate (insertPairs [[StringE ''12'', StringE ''a'']]) exampleTable =
      (Inr \<lparr>affectedRows = 1, insertId = VString ''12''\<rparr>,
       exampleTable\<lparr>trows := [[(''id'', VNumber 12), (''name'', VString ''a'')]]\<rparr>)"
    by (simp add: insert_defs insertPairs_def exampleTable_def parse_int_def)
  have b: "\<exists>t'. insertInto insertEvaluate
          (insertPairs [[NullE, StringE ''a''], [NumberE 5, StringE ''b'']]) exampleTable =
      (Inr \<lparr>affectedRows = 2, insertId = VNumber 5\<rparr>, t') \<and>
      trows t' = [[(''id'', VNumber 1), (''name'', VString ''a'')],
                  [(''id'', VNumber 5), (''name'', VString ''b'')]] \<and>
      map autoIncrementCursor (tcolumns t') = [1, 0]"
    by (simp add: insert_defs insertPairs_def exampleTable_def)
  then obtain t' where b': "insertInto insertEvaluate
          (insertPairs [[NullE, StringE ''a''], [NumberE 5, StringE ''b'']]) exampleTable =
      (Inr \<lparr>affectedRows = 2, insertId = VNumber 5\<rparr>, t')"
      "trows t' = [[(''id'', VNumber 1), (''name'', VString ''a'')],
                  [(''id'', VNumber 5), (''name'', VString ''b'')]]"
      "map autoIncrementCursor (tcolumns t') = [1, 0]"
    by (elim exE conjE) (rule that)
  have c: "map autoIncrementCursor (tcolumns exampleTable) = [0, 0]"
    by (simp add: exampleTable_def integerColumnOf_def varcharColumnOf_def)
  from b' c show ?thesis
    by (simp add: a)
qed



end
